theory Spec2Isabelle
  imports Complex_Main "HOL-Library.Log_Nat"
begin

section \<open>Numbers, instants and typed arrays\<close>

text \<open>
  The embedding follows \<^verbatim>\<open>src/src/seismogram.js\<close>. A finite JavaScript number is a
  \<^typ>\<open>real\<close>. The arithmetic on times (sample rates, sample indices, seconds and
  milliseconds) is that of binary64: the result of every \<^verbatim>\<open>+\<close>, \<^verbatim>\<open>*\<close> and \<^verbatim>\<open>/\<close>
  there is rounded by \<open>double\<close> below, because an error in the last bit decides the
  millisecond an instant is cut to. The sums and products of sample values (in
  \<^verbatim>\<open>mean\<close>) are exact. A sample rate is not zero where a statement depends on the
  quotient by it: in JavaScript the quotient is then not finite and the moment made of it
  is invalid, which an instant of the model cannot be. A division of sample values whose
  divisor may be zero is written with \<open>js_div\<close> below, whose result \<open>None\<close> stands for the
  non-finite values \<^verbatim>\<open>NaN\<close>, \<^verbatim>\<open>Infinity\<close> and \<^verbatim>\<open>-Infinity\<close>.

  \<open>double x\<close> is the binary64 number nearest to \<open>x\<close>: 53 significant bits, a tie goes
  to the even significand. \<open>binary_exponent x\<close> is the exponent \<open>e\<close> with
  \<open>2^e \<le> x < 2^(e+1)\<close> for a positive \<open>x\<close>. The exponent range of binary64 (overflow
  to \<^verbatim>\<open>Infinity\<close>, subnormal numbers) is not modelled.
\<close>

definition round_half_even :: "real \<Rightarrow> int" where
  "round_half_even y =
     (let f = \<lfloor>y\<rfloor>; r = y - of_int f
      in if r < 1 / 2 then f else if 1 / 2 < r then f + 1 else if even f then f else f + 1)"

definition binary_exponent :: "real \<Rightarrow> int" where
  "binary_exponent x = (if 1 \<le> x then bitlen \<lfloor>x\<rfloor> - 1 else - bitlen (\<lceil>1 / x\<rceil> - 1))"

definition double_pos :: "real \<Rightarrow> real" where
  "double_pos x =
     (let e = binary_exponent x
      in of_int (round_half_even (x * 2 powi (52 - e))) * 2 powi (e - 52))"

definition double :: "real \<Rightarrow> real" where
  "double x = (if x = 0 then 0 else if x < 0 then - double_pos (- x) else double_pos x)"

text \<open>
  A \<^verbatim>\<open>moment\<close> wraps a JavaScript \<^verbatim>\<open>Date\<close>, whose time value is a whole number
  of milliseconds since the epoch. \<^verbatim>\<open>moment.add(x, unit)\<close> makes a duration of
  \<open>x\<close>, whose milliseconds are \<open>x\<close> for the unit \<^verbatim>\<open>'ms'\<close> and \<^verbatim>\<open>x * 1e3\<close> for
  \<^verbatim>\<open>'seconds'\<close>, and hands \<^verbatim>\<open>valueOf() + milliseconds\<close> to
  \<^verbatim>\<open>Date.prototype.setTime\<close>, which applies \<^verbatim>\<open>TimeClip\<close> and so drops the fraction
  toward zero. An instant is therefore an \<^typ>\<open>int\<close>, \<^verbatim>\<open>isBefore\<close>, \<^verbatim>\<open>isAfter\<close> are
  \<open><\<close>, \<open>>\<close> and \<^verbatim>\<open>a.diff(b)\<close> is \<open>a - b\<close>. Instants are valid moments. The time
  value of a \<^verbatim>\<open>Date\<close> is at most 8.64e15 ms either side of the epoch
  (\<open>Date_range\<close>); \<^verbatim>\<open>TimeClip\<close> makes the moment invalid beyond that, which the model
  does not follow, so that a statement about a sum of instants names the range.
\<close>

type_synonym moment = int

definition Date_range :: "moment \<Rightarrow> bool" where
  "Date_range t \<longleftrightarrow> \<bar>t\<bar> \<le> 8640000000000000"

definition TimeClip :: "real \<Rightarrow> int" where
  "TimeClip x = (if 0 \<le> x then \<lfloor>x\<rfloor> else \<lceil>x\<rceil>)"

definition moment_add_ms :: "moment \<Rightarrow> real \<Rightarrow> moment" where
  "moment_add_ms t ms = TimeClip (double (of_int t + ms))"

definition moment_add_seconds :: "moment \<Rightarrow> real \<Rightarrow> moment" where
  "moment_add_seconds t x = moment_add_ms t (double (x * 1000))"

text \<open>
  The three typed arrays the code uses. An element is kept as the number read back from
  the array. A store \<^verbatim>\<open>out[i] = v\<close> converts \<open>v\<close> to the element type: \<^verbatim>\<open>ToInt32\<close>
  for an \<^verbatim>\<open>Int32Array\<close> (truncate toward zero, wrap modulo \<open>2^32\<close> into the signed
  range), \<^verbatim>\<open>Math.fround\<close> for a \<^verbatim>\<open>Float32Array\<close> (a parameter \<open>fround\<close> of the
  model), nothing for a \<^verbatim>\<open>Float64Array\<close>. A store at an index outside the array is
  ignored, as \<open>xs[i := v]\<close> is. The examples take \<^const>\<open>id\<close> for \<open>fround\<close>: their
  values are numbers that \<^verbatim>\<open>Math.fround\<close> leaves as they are.
\<close>

datatype array_kind = Int32 | Float32 | Float64

datatype typed_array = TypedArray (kind: array_kind) (elems: "real list")

definition ToInt32 :: "real \<Rightarrow> int" where
  "ToInt32 x = (let m = TimeClip x mod 2 ^ 32 in if 2 ^ 31 \<le> m then m - 2 ^ 32 else m)"

definition store_elem :: "(real \<Rightarrow> real) \<Rightarrow> array_kind \<Rightarrow> real \<Rightarrow> real" where
  "store_elem fround k v =
     (case k of Int32 \<Rightarrow> of_int (ToInt32 v) | Float32 \<Rightarrow> fround v | Float64 \<Rightarrow> v)"

definition new_array :: "array_kind \<Rightarrow> nat \<Rightarrow> real list" where
  "new_array k n = replicate n 0"

text \<open>\<^verbatim>\<open>for (v of src) { out[i] = v; i++ }\<close>: the array after the loop and the next index.\<close>

fun write_from :: "(real \<Rightarrow> real) \<Rightarrow> array_kind \<Rightarrow> real list \<Rightarrow> nat \<Rightarrow> real list
    \<Rightarrow> real list \<times> nat" where
  "write_from fround k out i [] = (out, i)"
| "write_from fround k out i (v # vs) =
     write_from fround k (out[i := store_elem fround k v]) (Suc i) vs"

text \<open>
  \<^verbatim>\<open>TypedArray.prototype.slice(begin, end)\<close>: a negative index counts from the end,
  both are clamped to the array.
\<close>

definition js_slice :: "'a list \<Rightarrow> int \<Rightarrow> int \<Rightarrow> 'a list" where
  "js_slice xs b e =
     (let n = int (length xs);
          k = (if b < 0 then max (n + b) 0 else min b n);
          final = (if e < 0 then max (n + e) 0 else min e n)
      in take (nat (final - k)) (drop (nat k) xs))"

definition js_div :: "real \<Rightarrow> real \<Rightarrow> real option" where
  "js_div a b = (if b = 0 then None else Some (a / b))"

section \<open>Errors\<close>

datatype error =
    NotYOrEncoded
  | DecodingError
  | TypeError
  | NotSegmentArray
  | SeismogramEmpty
  | NetworkCodeNotSame
  | StationCodeNotSame
  | LocationCodeNotSame
  | ChannelCodeNotSame
  | YUnitNotSame
  | SampleRateNotSame
  | NoData
  | NotContiguous

section \<open>Encoded payloads\<close>

text \<open>
  Modelled from the spec: \<^verbatim>\<open>seedcodec.EncodedDataSegment\<close> is not among the sources. An
  encoded chunk has a compression type, of which the segment only asks whether it is
  \<^verbatim>\<open>seedcodec.DOUBLE\<close> or \<^verbatim>\<open>seedcodec.FLOAT\<close>, and a declared sample count
  \<^verbatim>\<open>numSamples\<close>; \<^verbatim>\<open>decode()\<close> returns a typed sample sequence of exactly
  \<^verbatim>\<open>numSamples\<close> values or fails with a decoding error. \<open>payload\<close> is what the
  bytes of the chunk decompress to, \<open>None\<close> when they do not decompress.
\<close>

datatype compression = DOUBLE | FLOAT | OtherCompression nat

record EncodedDataSegment =
  compressionType :: compression
  numSamples :: nat
  payload :: "typed_array option"

definition decode :: "EncodedDataSegment \<Rightarrow> error + typed_array" where
  "decode c =
     (case payload c of
        None \<Rightarrow> Inl DecodingError
      | Some a \<Rightarrow> if length (elems a) = numSamples c then Inr a else Inl DecodingError)"

section \<open>SeismogramSegment\<close>

text \<open>
  The fields of the class; \<open>priv_x\<close> is the field \<^verbatim>\<open>_x\<close>. \<open>None\<close> is \<^verbatim>\<open>null\<close> (or
  \<^verbatim>\<open>undefined\<close> for the codes, which the constructor does not set).
\<close>

record SeismogramSegment =
  priv_y :: "typed_array option"
  priv_compressed :: "EncodedDataSegment list option"
  priv_sampleRate :: real
  priv_startTime :: moment
  priv_endTime_cache :: "moment option"
  priv_endTime_cache_numPoints :: nat
  networkCode :: "string option"
  stationCode :: "string option"
  locationCode :: "string option"
  channelCode :: "string option"
  yUnit :: string

datatype ydata =
    TypedData typed_array
  | EncodedData "EncodedDataSegment list"
  | NumberData "real list"

text \<open>
  Modelled from the spec: \<^verbatim>\<open>checkStringOrDate\<close> of \<^verbatim>\<open>util\<close> is not among the sources.
  The start time of a segment is a UTC instant; the function is given a moment and
  returns that instant.
\<close>

definition checkStringOrDate :: "moment \<Rightarrow> moment" where
  "checkStringOrDate d = d"

text \<open>
  The constructor. \<^verbatim>\<open>[].every(...)\<close> is true, so an empty plain array takes the
  encoded branch whatever it was meant to hold.
\<close>

definition new_SeismogramSegment :: "ydata \<Rightarrow> real \<Rightarrow> moment \<Rightarrow> SeismogramSegment" where
  "new_SeismogramSegment yArray sampleRate startTime =
     \<lparr> priv_y = (case yArray of
                   TypedData a \<Rightarrow> Some a
                 | EncodedData cs \<Rightarrow> None
                 | NumberData xs \<Rightarrow> if xs = [] then None else Some (TypedArray Float64 xs)),
       priv_compressed = (case yArray of
                   TypedData a \<Rightarrow> None
                 | EncodedData cs \<Rightarrow> Some cs
                 | NumberData xs \<Rightarrow> if xs = [] then Some [] else None),
       priv_sampleRate = sampleRate,
       priv_startTime = checkStringOrDate startTime,
       priv_endTime_cache = None,
       priv_endTime_cache_numPoints = 0,
       networkCode = None,
       stationCode = None,
       locationCode = None,
       channelCode = None,
       yUnit = ''count'' \<rparr>"

definition seg_numPoints :: "SeismogramSegment \<Rightarrow> nat" where
  "seg_numPoints s =
     (case priv_y s of
        Some a \<Rightarrow> length (elems a)
      | None \<Rightarrow> (case priv_compressed s of
                   Some cs \<Rightarrow> foldl (\<lambda>out c. out + numSamples c) 0 cs
                 | None \<Rightarrow> 0))"

definition seg_isEncoded :: "SeismogramSegment \<Rightarrow> bool" where
  "seg_isEncoded s =
     (if (case priv_y s of Some a \<Rightarrow> 0 < length (elems a) | None \<Rightarrow> False) then False
      else if (case priv_compressed s of Some cs \<Rightarrow> 0 < length cs | None \<Rightarrow> False) then True
      else False)"

text \<open>
  The loop of the \<^verbatim>\<open>y\<close> getter over the encoded chunks: \<open>out\<close> is the array being
  filled and \<open>currIdx\<close> the index of the next chunk's first sample.
\<close>

fun decode_chunks :: "(real \<Rightarrow> real) \<Rightarrow> array_kind \<Rightarrow> real list \<Rightarrow> nat
    \<Rightarrow> EncodedDataSegment list \<Rightarrow> error + real list" where
  "decode_chunks fround k out currIdx [] = Inr out"
| "decode_chunks fround k out currIdx (c # cs) =
     (case decode c of
        Inl e \<Rightarrow> Inl e
      | Inr cData \<Rightarrow>
          decode_chunks fround k
            (fst (write_from fround k out currIdx
                    (map (\<lambda>i. elems cData ! i) [0..<numSamples c])))
            (currIdx + numSamples c) cs)"

text \<open>The kind of array the getter allocates, from the first chunk's compression type.\<close>

definition array_kind_of :: "compression \<Rightarrow> array_kind" where
  "array_kind_of t = (case t of DOUBLE \<Rightarrow> Float64 | FLOAT \<Rightarrow> Float32 | OtherCompression n \<Rightarrow> Int32)"

text \<open>
  The \<^verbatim>\<open>y\<close> getter: the array it returns and the segment after the call (decoding
  assigns \<^verbatim>\<open>_y\<close> and clears \<^verbatim>\<open>_compressed\<close>).
\<close>

definition seg_y :: "(real \<Rightarrow> real) \<Rightarrow> SeismogramSegment
    \<Rightarrow> error + (typed_array \<times> SeismogramSegment)" where
  "seg_y fround s =
     (case priv_y s of
        Some a \<Rightarrow> Inr (a, s)
      | None \<Rightarrow>
          if \<not> seg_isEncoded s then Inl NotYOrEncoded
          else (case priv_compressed s of
                  None \<Rightarrow> Inl NotYOrEncoded
                | Some [] \<Rightarrow> Inl TypeError
                | Some (c0 # cs) \<Rightarrow>
                    (let outLen = seg_numPoints s;
                         k = array_kind_of (compressionType c0)
                     in case decode_chunks fround k (new_array k outLen) 0 (c0 # cs) of
                          Inl e \<Rightarrow> Inl e
                        | Inr out \<Rightarrow>
                            Inr (TypedArray k out,
                                 s\<lparr>priv_y := Some (TypedArray k out),
                                   priv_compressed := None\<rparr>))))"

definition seg_invalidate_endTime_cache :: "SeismogramSegment \<Rightarrow> SeismogramSegment" where
  "seg_invalidate_endTime_cache s =
     s\<lparr>priv_endTime_cache := None, priv_endTime_cache_numPoints := 0\<rparr>"

definition seg_set_y :: "typed_array \<Rightarrow> SeismogramSegment \<Rightarrow> SeismogramSegment" where
  "seg_set_y v s = seg_invalidate_endTime_cache (s\<lparr>priv_y := Some v\<rparr>)"

definition seg_set_startTime :: "moment \<Rightarrow> SeismogramSegment \<Rightarrow> SeismogramSegment" where
  "seg_set_startTime v s =
     seg_invalidate_endTime_cache (s\<lparr>priv_startTime := checkStringOrDate v\<rparr>)"

definition seg_set_sampleRate :: "real \<Rightarrow> SeismogramSegment \<Rightarrow> SeismogramSegment" where
  "seg_set_sampleRate v s = seg_invalidate_endTime_cache (s\<lparr>priv_sampleRate := v\<rparr>)"

definition seg_timeOfSample :: "SeismogramSegment \<Rightarrow> int \<Rightarrow> moment" where
  "seg_timeOfSample s i =
     moment_add_seconds (priv_startTime s) (double (of_int i / priv_sampleRate s))"

text \<open>
  The \<^verbatim>\<open>endTime\<close> getter: the moment it returns and the segment after the call. The
  getter returns the cached moment object itself, not a copy.
\<close>

definition seg_recalc_endTime :: "SeismogramSegment \<Rightarrow> moment \<times> SeismogramSegment" where
  "seg_recalc_endTime s =
     (let n = seg_numPoints s; t = seg_timeOfSample s (int n - 1)
      in (t, s\<lparr>priv_endTime_cache := Some t, priv_endTime_cache_numPoints := n\<rparr>))"

definition seg_endTime :: "SeismogramSegment \<Rightarrow> moment \<times> SeismogramSegment" where
  "seg_endTime s =
     (case priv_endTime_cache s of
        None \<Rightarrow> seg_recalc_endTime s
      | Some t \<Rightarrow>
          if priv_endTime_cache_numPoints s \<noteq> seg_numPoints s then seg_recalc_endTime s
          else (t, s))"

text \<open>
  \<^verbatim>\<open>findMinMax\<close>: the scan over the samples, from the accumulator or from
  \<^verbatim>\<open>Number.MAX_SAFE_INTEGER\<close> and its negation.
\<close>

definition MAX_SAFE_INTEGER :: real where
  "MAX_SAFE_INTEGER = 9007199254740991"

fun minmax_scan :: "real list \<Rightarrow> real \<times> real \<Rightarrow> real \<times> real" where
  "minmax_scan [] (minAmp, maxAmp) = (minAmp, maxAmp)"
| "minmax_scan (v # vs) (minAmp, maxAmp) =
     minmax_scan vs (if minAmp > v then v else minAmp, if maxAmp < v then v else maxAmp)"

definition seg_findMinMax :: "(real \<Rightarrow> real) \<Rightarrow> SeismogramSegment \<Rightarrow> (real \<times> real) option
    \<Rightarrow> error + (real \<times> real)" where
  "seg_findMinMax fround s minMaxAccumulator =
     (let start = (case minMaxAccumulator of
                     None \<Rightarrow> (MAX_SAFE_INTEGER, -1 * MAX_SAFE_INTEGER)
                   | Some acc \<Rightarrow> acc)
      in case seg_y fround s of
           Inl e \<Rightarrow> Inl e
         | Inr (yData, s') \<Rightarrow> Inr (minmax_scan (elems yData) start))"

definition seg_cloneWithNewData :: "SeismogramSegment \<Rightarrow> ydata \<Rightarrow> moment \<Rightarrow> SeismogramSegment" where
  "seg_cloneWithNewData s clonedData clonedStartTime =
     (new_SeismogramSegment clonedData (priv_sampleRate s) clonedStartTime)
       \<lparr>networkCode := networkCode s,
        stationCode := stationCode s,
        locationCode := locationCode s,
        channelCode := channelCode s,
        yUnit := yUnit s\<rparr>"

text \<open>
  Modelled from the spec: \<^verbatim>\<open>StartEndDuration\<close> of \<^verbatim>\<open>util\<close> is not among the sources.
  A time window has a start and an end instant, and the code reads these two moments
  only.
\<close>

record StartEndDuration =
  startTime :: moment
  endTime :: moment

text \<open>
  \<^verbatim>\<open>SeismogramSegment.cut\<close>; \<open>None\<close> is \<^verbatim>\<open>null\<close>. The getters are called in the
  order of the source, each on the segment as the previous call left it.
\<close>

definition seg_cut :: "(real \<Rightarrow> real) \<Rightarrow> SeismogramSegment \<Rightarrow> StartEndDuration
    \<Rightarrow> error + SeismogramSegment option" where
  "seg_cut fround s timeWindow =
     (if endTime timeWindow < priv_startTime s \<or> startTime timeWindow > fst (seg_endTime s)
      then Inr None
      else
        (let s1 = snd (seg_endTime s);
             sIndex = (if startTime timeWindow > priv_startTime s1
                       then \<lfloor>double (double (of_int (startTime timeWindow - priv_startTime s1)
                                               * priv_sampleRate s1) / 1000)\<rfloor>
                       else 0)
         in case seg_y fround s1 of
              Inl e \<Rightarrow> Inl e
            | Inr (y, s2) \<Rightarrow>
                (let (end2, s3) = seg_endTime s2;
                     eIndex = (if endTime timeWindow < end2
                               then int (length (elems y))
                                    - \<lfloor>double (double (of_int (fst (seg_endTime s3)
                                                                - endTime timeWindow)
                                                        * priv_sampleRate s3) / 1000)\<rfloor>
                               else int (length (elems y)));
                     cutY = TypedArray (kind y) (js_slice (elems y) sIndex eIndex)
                 in Inr (Some (seg_cloneWithNewData s3 (TypedData cutY)
                                 (moment_add_seconds (priv_startTime s3)
                                    (double (of_int sIndex / priv_sampleRate s3))))))))"

section \<open>Seismogram\<close>

record Seismogram =
  priv_segmentArray :: "SeismogramSegment list"
  priv_seis_startTime :: moment
  priv_seis_endTime :: moment
  priv_seis_y :: "typed_array option"

text \<open>\<^verbatim>\<open>checkSimilar\<close>: the error it throws, \<open>None\<close> when it returns.\<close>

definition checkSimilar :: "SeismogramSegment \<Rightarrow> SeismogramSegment \<Rightarrow> error option" where
  "checkSimilar f s =
     (if networkCode s \<noteq> networkCode f then Some NetworkCodeNotSame
      else if stationCode s \<noteq> stationCode f then Some StationCodeNotSame
      else if locationCode s \<noteq> locationCode f then Some LocationCodeNotSame
      else if channelCode s \<noteq> channelCode f then Some ChannelCodeNotSame
      else if yUnit s \<noteq> yUnit f then Some YUnitNotSame
      else if priv_sampleRate s \<noteq> priv_sampleRate f then Some SampleRateNotSame
      else None)"

fun checkSimilar_forEach :: "SeismogramSegment \<Rightarrow> SeismogramSegment list \<Rightarrow> error option" where
  "checkSimilar_forEach f [] = None"
| "checkSimilar_forEach f (s # ss) =
     (case checkSimilar f s of Some e \<Rightarrow> Some e | None \<Rightarrow> checkSimilar_forEach f ss)"

definition checkAllSimilar :: "SeismogramSegment list \<Rightarrow> error option" where
  "checkAllSimilar segmentArray =
     (case segmentArray of
        [] \<Rightarrow> Some SeismogramEmpty
      | f # rest \<Rightarrow> checkSimilar_forEach f segmentArray)"

text \<open>
  \<^verbatim>\<open>moment.min\<close> and \<^verbatim>\<open>moment.max\<close> of a list with a first element (they copy
  nothing: the result is one of the arguments).
\<close>

definition moment_min :: "moment \<Rightarrow> moment list \<Rightarrow> moment" where
  "moment_min t ts = foldl (\<lambda>res m. if m < res then m else res) t ts"

definition moment_max :: "moment \<Rightarrow> moment list \<Rightarrow> moment" where
  "moment_max t ts = foldl (\<lambda>res m. if m > res then m else res) t ts"

text \<open>
  The constructor with \<^verbatim>\<open>checkAllSimilar\<close> and \<^verbatim>\<open>findStartEnd\<close>; a single segment is
  the list of that segment. Reading \<^verbatim>\<open>endTime\<close> fills the cache of every segment.
\<close>

definition new_Seismogram :: "SeismogramSegment list \<Rightarrow> error + Seismogram" where
  "new_Seismogram segmentArray =
     (case segmentArray of
        [] \<Rightarrow> Inl NotSegmentArray
      | f # rest \<Rightarrow>
          (case checkAllSimilar segmentArray of
             Some e \<Rightarrow> Inl e
           | None \<Rightarrow>
               Inr \<lparr> priv_segmentArray = map (\<lambda>seis. snd (seg_endTime seis)) segmentArray,
                     priv_seis_startTime = moment_min (priv_startTime f) (map priv_startTime rest),
                     priv_seis_endTime =
                       moment_max (fst (seg_endTime f)) (map (\<lambda>seis. fst (seg_endTime seis)) rest),
                     priv_seis_y = None \<rparr>))"

definition seis_numPoints :: "Seismogram \<Rightarrow> nat" where
  "seis_numPoints s =
     foldl (\<lambda>accumulator seis. accumulator + seg_numPoints seis) 0 (priv_segmentArray s)"

fun seis_findMinMax_loop :: "(real \<Rightarrow> real) \<Rightarrow> SeismogramSegment list \<Rightarrow> (real \<times> real) option
    \<Rightarrow> error + (real \<times> real) option" where
  "seis_findMinMax_loop fround [] minMaxAccumulator = Inr minMaxAccumulator"
| "seis_findMinMax_loop fround (s # ss) minMaxAccumulator =
     (case seg_findMinMax fround s minMaxAccumulator of
        Inl e \<Rightarrow> Inl e
      | Inr mm \<Rightarrow> seis_findMinMax_loop fround ss (Some mm))"

definition seis_findMinMax :: "(real \<Rightarrow> real) \<Rightarrow> Seismogram \<Rightarrow> (real \<times> real) option
    \<Rightarrow> error + (real \<times> real)" where
  "seis_findMinMax fround s minMaxAccumulator =
     (if length (priv_segmentArray s) = 0 then Inl NoData
      else case seis_findMinMax_loop fround (priv_segmentArray s) minMaxAccumulator of
             Inl e \<Rightarrow> Inl e
           | Inr None \<Rightarrow> Inl NoData
           | Inr (Some mm) \<Rightarrow> Inr mm)"

text \<open>
  Modelled from the spec: \<^verbatim>\<open>meanOfSlice\<close> of \<^verbatim>\<open>util\<close> is not among the sources. The
  spec says of \<^verbatim>\<open>mean\<close> that it is the sample-count-weighted average across segments,
  and \<^verbatim>\<open>mean\<close> weights \<^verbatim>\<open>meanOfSlice(s.y, s.y.length)\<close> with the sample count, so
  that \<^verbatim>\<open>meanOfSlice(dataSlice, totalPts)\<close> is the mean of the slice: the sum of its
  values divided by \<open>totalPts\<close>. The division is JavaScript's, which does not throw: for
  an empty slice and \<open>totalPts\<close> zero it is \<open>0 / 0\<close>, not a finite number. The spec says
  nothing else of an empty slice.
\<close>

definition meanOfSlice :: "real list \<Rightarrow> nat \<Rightarrow> real option" where
  "meanOfSlice dataSlice totalPts = js_div (sum_list dataSlice) (of_nat totalPts)"

text \<open>
  \<^verbatim>\<open>Seismogram.mean\<close>. A value that is not finite stays so when a finite number is
  added to it, multiplies it or divides it.
\<close>

fun seis_mean_loop :: "(real \<Rightarrow> real) \<Rightarrow> SeismogramSegment list \<Rightarrow> real option
    \<Rightarrow> error + real option" where
  "seis_mean_loop fround [] meanVal = Inr meanVal"
| "seis_mean_loop fround (s # ss) meanVal =
     (case seg_y fround s of
        Inl e \<Rightarrow> Inl e
      | Inr (y, s') \<Rightarrow>
          seis_mean_loop fround ss
            (case (meanVal, meanOfSlice (elems y) (length (elems y))) of
               (Some m, Some segMean) \<Rightarrow> Some (m + segMean * of_nat (seg_numPoints s'))
             | _ \<Rightarrow> None))"

definition seis_mean :: "(real \<Rightarrow> real) \<Rightarrow> Seismogram \<Rightarrow> error + real option" where
  "seis_mean fround s =
     (let npts = seis_numPoints s
      in case seis_mean_loop fround (priv_segmentArray s) (Some 0) of
           Inl e \<Rightarrow> Inl e
         | Inr None \<Rightarrow> Inr None
         | Inr (Some meanVal) \<Rightarrow> Inr (js_div meanVal (of_nat npts)))"

text \<open>
  \<^verbatim>\<open>append\<close> of one segment, and of a Seismogram (each of its segments in turn). Without
  a first segment \<^verbatim>\<open>checkSimilar\<close> reads a field of \<^verbatim>\<open>undefined\<close>.
\<close>

definition seis_append_segment :: "Seismogram \<Rightarrow> SeismogramSegment \<Rightarrow> error + Seismogram" where
  "seis_append_segment s seismogram =
     (case priv_segmentArray s of
        [] \<Rightarrow> Inl TypeError
      | f # rest \<Rightarrow>
          (case checkSimilar f seismogram of
             Some e \<Rightarrow> Inl e
           | None \<Rightarrow>
               (let (segEnd, seismogram') = seg_endTime seismogram
                in Inr (s\<lparr>priv_seis_startTime :=
                            moment_min (priv_seis_startTime s) [priv_startTime seismogram],
                          priv_seis_endTime := moment_max (priv_seis_endTime s) [segEnd],
                          priv_segmentArray := priv_segmentArray s @ [seismogram']\<rparr>))))"

fun seis_append_forEach :: "Seismogram \<Rightarrow> SeismogramSegment list \<Rightarrow> error + Seismogram" where
  "seis_append_forEach s [] = Inr s"
| "seis_append_forEach s (x # xs) =
     (case seis_append_segment s x of Inl e \<Rightarrow> Inl e | Inr s' \<Rightarrow> seis_append_forEach s' xs)"

definition seis_append :: "Seismogram \<Rightarrow> SeismogramSegment + Seismogram \<Rightarrow> error + Seismogram" where
  "seis_append s seismogram =
     (case seismogram of
        Inr other \<Rightarrow> seis_append_forEach s (priv_segmentArray other)
      | Inl segment \<Rightarrow> seis_append_segment s segment)"

text \<open>
  \<^verbatim>\<open>trim\<close>: the first filter reads \<^verbatim>\<open>endTime\<close> of every segment, and the segments
  kept are those objects.
\<close>

definition seis_trim :: "Seismogram \<Rightarrow> StartEndDuration \<Rightarrow> error + Seismogram option" where
  "seis_trim s timeWindow =
     (let trimSeisArray =
            filter (\<lambda>d. priv_startTime d < endTime timeWindow)
              (map (\<lambda>d. snd (seg_endTime d))
                 (filter (\<lambda>d. fst (seg_endTime d) > startTime timeWindow) (priv_segmentArray s)))
      in if length trimSeisArray > 0
         then (case new_Seismogram trimSeisArray of Inl e \<Rightarrow> Inl e | Inr out \<Rightarrow> Inr (Some out))
         else Inr None)"



text \<open>
  \<^verbatim>\<open>isContiguous\<close>: the answer and the Seismogram after the call. \<open>before\<close> holds the
  segments ahead of \<open>prev\<close>, which is \<^verbatim>\<open>null\<close> before the first segment. The moment
  that \<^verbatim>\<open>prev.endTime\<close> returns is the cached object, and \<^verbatim>\<open>add\<close> changes the moment
  it is called on, so the sum is what the cache of \<open>prev\<close> holds afterwards. The
  segments of the array are taken to be distinct objects.
\<close>

fun isContiguous_loop :: "SeismogramSegment list \<Rightarrow> SeismogramSegment option
    \<Rightarrow> SeismogramSegment list \<Rightarrow> bool \<times> SeismogramSegment list" where
  "isContiguous_loop before None [] = (True, before)"
| "isContiguous_loop before (Some prev) [] = (True, before @ [prev])"
| "isContiguous_loop before None (s # rest) = isContiguous_loop before (Some s) rest"
| "isContiguous_loop before (Some prev) (s # rest) =
     (let (end1, prev1) = seg_endTime prev
      in if end1 < priv_startTime s
         then
           (let (end2, prev2) = seg_endTime prev1;
                shifted = moment_add_ms end2
                            (double (double (1000 * 1.5) / priv_sampleRate prev2));
                prev3 = prev2\<lparr>priv_endTime_cache := Some shifted\<rparr>
            in if shifted > priv_startTime s
               then isContiguous_loop (before @ [prev3]) (Some s) rest
               else (False, before @ prev3 # s # rest))
         else (False, before @ prev1 # s # rest))"

definition seis_isContiguous :: "Seismogram \<Rightarrow> bool \<times> Seismogram" where
  "seis_isContiguous s =
     (if length (priv_segmentArray s) = 1 then (True, s)
      else (let (r, segs) = isContiguous_loop [] None (priv_segmentArray s)
            in (r, s\<lparr>priv_segmentArray := segs\<rparr>)))"




section \<open>Notions used in the statements\<close>

text \<open>The samples one chunk contributes to an array of kind \<open>k\<close>.\<close>

definition chunk_samples :: "(real \<Rightarrow> real) \<Rightarrow> array_kind \<Rightarrow> EncodedDataSegment \<Rightarrow> real list" where
  "chunk_samples fround k c =
     (case decode c of Inl e \<Rightarrow> [] | Inr a \<Rightarrow> map (store_elem fround k) (elems a))"

text \<open>
  What a caller can do to a segment through its own interface: assign \<^verbatim>\<open>y\<close>,
  \<^verbatim>\<open>startTime\<close> or \<^verbatim>\<open>sampleRate\<close>, read \<^verbatim>\<open>y\<close> or \<^verbatim>\<open>endTime\<close>. A read of
  \<^verbatim>\<open>y\<close> that throws leaves the segment as it was.
\<close>

datatype seg_op = Set_y typed_array | Set_startTime moment | Set_sampleRate real | Get_y | Get_endTime

fun seg_do :: "(real \<Rightarrow> real) \<Rightarrow> SeismogramSegment \<Rightarrow> seg_op \<Rightarrow> SeismogramSegment" where
  "seg_do fround s (Set_y v) = seg_set_y v s"
| "seg_do fround s (Set_startTime v) = seg_set_startTime v s"
| "seg_do fround s (Set_sampleRate v) = seg_set_sampleRate v s"
| "seg_do fround s Get_y = (case seg_y fround s of Inl e \<Rightarrow> s | Inr (a, s') \<Rightarrow> s')"
| "seg_do fround s Get_endTime = snd (seg_endTime s)"

definition seg_run :: "(real \<Rightarrow> real) \<Rightarrow> SeismogramSegment \<Rightarrow> seg_op list \<Rightarrow> SeismogramSegment" where
  "seg_run fround s ops = foldl (seg_do fround) s ops"

text \<open>
  The cached end time, when it is the one the getter would return, is the time of the
  last sample.
\<close>

definition cache_ok :: "SeismogramSegment \<Rightarrow> bool" where
  "cache_ok s =
     (case priv_endTime_cache s of
        None \<Rightarrow> True
      | Some t \<Rightarrow> priv_endTime_cache_numPoints s \<noteq> seg_numPoints s
                 \<or> t = seg_timeOfSample s (int (seg_numPoints s) - 1))"

text \<open>The pair a scan starts from: the accumulator, or the two extreme values without one.\<close>

definition minmax_start :: "(real \<times> real) option \<Rightarrow> real \<times> real" where
  "minmax_start acc = (case acc of None \<Rightarrow> (MAX_SAFE_INTEGER, -1 * MAX_SAFE_INTEGER) | Some a \<Rightarrow> a)"

text \<open>
  The test \<^verbatim>\<open>isContiguous\<close> makes on a segment and its successor: the end is before
  the start of the next, and the end moved on by one and a half sample periods, as
  \<^verbatim>\<open>moment.add\<close> moves it, is after it.
\<close>

definition gap_ok :: "SeismogramSegment \<Rightarrow> SeismogramSegment \<Rightarrow> bool" where
  "gap_ok prev next =
     (fst (seg_endTime prev) < priv_startTime next
      \<and> moment_add_ms (fst (seg_endTime prev)) (double (double (1000 * 1.5) / priv_sampleRate prev))
          > priv_startTime next)"

text \<open>A property of every element of a list and its successor.\<close>

fun all_adjacent :: "('a \<Rightarrow> 'a \<Rightarrow> bool) \<Rightarrow> 'a list \<Rightarrow> bool" where
  "all_adjacent P [] = True"
| "all_adjacent P [x] = True"
| "all_adjacent P (x # y # zs) = (P x y \<and> all_adjacent P (y # zs))"

text \<open>
  Two segments of two samples at 1000 Hz, the second starting one sample period (1 ms)
  after the last sample of the first; and the same at 1 Hz (a period of 1000 ms).
\<close>

definition khz_first :: SeismogramSegment where
  "khz_first = new_SeismogramSegment (TypedData (TypedArray Int32 [1, 2])) 1000 0"

definition khz_second :: SeismogramSegment where
  "khz_second = new_SeismogramSegment (TypedData (TypedArray Int32 [3, 4])) 1000 2"

definition hz_first :: SeismogramSegment where
  "hz_first = new_SeismogramSegment (TypedData (TypedArray Int32 [1, 2])) 1 0"

definition hz_second :: SeismogramSegment where
  "hz_second = new_SeismogramSegment (TypedData (TypedArray Int32 [3, 4])) 1 2000"

text \<open>The Seismograms that the constructor makes of them: it reads every end time.\<close>

definition khz_seismogram :: Seismogram where
  "khz_seismogram =
     \<lparr>priv_segmentArray =
        [khz_first\<lparr>priv_endTime_cache := Some 1, priv_endTime_cache_numPoints := 2\<rparr>,
         khz_second\<lparr>priv_endTime_cache := Some 3, priv_endTime_cache_numPoints := 2\<rparr>],
      priv_seis_startTime = 0, priv_seis_endTime = 3, priv_seis_y = None\<rparr>"

definition hz_seismogram :: Seismogram where
  "hz_seismogram =
     \<lparr>priv_segmentArray =
        [hz_first\<lparr>priv_endTime_cache := Some 1000, priv_endTime_cache_numPoints := 2\<rparr>,
         hz_second\<lparr>priv_endTime_cache := Some 3000, priv_endTime_cache_numPoints := 2\<rparr>],
      priv_seis_startTime = 0, priv_seis_endTime = 3000, priv_seis_y = None\<rparr>"

text \<open>
  A segment of 202 samples at 100 Hz and a segment of two samples at 3 Hz, both from
  0 ms.
\<close>

definition hundred_hz :: SeismogramSegment where
  "hundred_hz = new_SeismogramSegment (TypedData (TypedArray Float64 (replicate 202 0))) 100 0"

definition three_hz :: SeismogramSegment where
  "three_hz = new_SeismogramSegment (TypedData (TypedArray Float64 [1, 2])) 3 0"

text \<open>A read of \<^verbatim>\<open>y\<close> on the segment returns the array \<open>y\<close>.\<close>

definition readable :: "(real \<Rightarrow> real) \<Rightarrow> SeismogramSegment \<Rightarrow> typed_array \<Rightarrow> bool" where
  "readable fround seg y = (case seg_y fround seg of Inl e \<Rightarrow> False | Inr (a, seg') \<Rightarrow> a = y)"


text \<open>Two states of a segment with the same samples, decoded or encoded.\<close>

definition same_data :: "SeismogramSegment \<Rightarrow> SeismogramSegment \<Rightarrow> bool" where
  "same_data a b = (priv_y a = priv_y b \<and> priv_compressed a = priv_compressed b)"




text \<open>The mean of the samples of one array, for an array that has samples.\<close>

definition segment_mean :: "typed_array \<Rightarrow> real" where
  "segment_mean y = sum_list (elems y) / real (length (elems y))"

text \<open>A segment of three samples and a segment whose sample array is empty.\<close>

definition three_samples :: SeismogramSegment where
  "three_samples = new_SeismogramSegment (TypedData (TypedArray Float64 [1, 2, 3])) 1 0"

definition no_samples :: SeismogramSegment where
  "no_samples = new_SeismogramSegment (TypedData (TypedArray Float64 [])) 1 5000"

definition sparse_seismogram :: Seismogram where
  "sparse_seismogram =
     \<lparr>priv_segmentArray =
        [three_samples\<lparr>priv_endTime_cache := Some 2000, priv_endTime_cache_numPoints := 3\<rparr>,
         no_samples\<lparr>priv_endTime_cache := Some 4000, priv_endTime_cache_numPoints := 0\<rparr>],
      priv_seis_startTime = 0, priv_seis_endTime = 4000, priv_seis_y = None\<rparr>"




section \<open>Auxiliary facts\<close>

subsection \<open>Rounding to binary64\<close>

lemma round_half_even_of_int [simp]: "round_half_even (of_int k) = k"
  by (simp add: round_half_even_def)

lemma round_half_even_floor: "\<lfloor>y\<rfloor> \<le> round_half_even y \<and> round_half_even y \<le> \<lfloor>y\<rfloor> + 1"
  by (simp add: round_half_even_def Let_def)

lemma round_half_even_near: "\<bar>of_int (round_half_even y) - y\<bar> \<le> 1 / 2"
  unfolding round_half_even_def Let_def by (auto; linarith)

lemma round_half_even_mono: "a \<le> b \<Longrightarrow> round_half_even a \<le> round_half_even b"
proof -
  assume ab: "a \<le> b"
  have f: "\<lfloor>a\<rfloor> \<le> \<lfloor>b\<rfloor>" using ab by (rule floor_mono)
  show ?thesis
  proof (cases "\<lfloor>a\<rfloor> = \<lfloor>b\<rfloor>")
    case True
    then show ?thesis using ab unfolding round_half_even_def Let_def by (auto; linarith)
  next
    case False
    then have "\<lfloor>a\<rfloor> + 1 \<le> \<lfloor>b\<rfloor>" using f by linarith
    then show ?thesis using round_half_even_floor [of a] round_half_even_floor [of b] by linarith
  qed
qed

lemma binary_exponent_bounds: "0 < x \<Longrightarrow> 2 powi binary_exponent x \<le> x \<and> x < 2 powi (binary_exponent x + 1)"
proof (cases "1 \<le> x")
  case True
  assume "0 < x"
  let ?n = "\<lfloor>x\<rfloor>"
  have n: "0 < ?n" using True by linarith
  have b: "1 \<le> bitlen ?n" using n bitlen_eq_zero_iff [of ?n] bitlen_nonneg [of ?n] by linarith
  have e: "binary_exponent x = bitlen ?n - 1" using True by (simp add: binary_exponent_def)
  have p1: "2 powi binary_exponent x = (2::real) ^ nat (bitlen ?n - 1)" using b e by (simp add: power_int_def)
  have p2: "2 powi (binary_exponent x + 1) = (2::real) ^ nat (bitlen ?n)" using b e by (simp add: power_int_def)
  have a1: "(2::real) ^ nat (bitlen ?n - 1) \<le> of_int ?n" using bitlen_bounds [OF n] by simp
  have "?n + 1 \<le> 2 ^ nat (bitlen ?n)" using bitlen_bounds [OF n] by linarith
  then have "real_of_int (?n + 1) \<le> real_of_int (2 ^ nat (bitlen ?n))" by (simp only: of_int_le_iff)
  then have a2: "of_int ?n + 1 \<le> (2::real) ^ nat (bitlen ?n)"
    by (simp only: of_int_add of_int_1 of_int_power of_int_numeral)
  have 1: "2 powi binary_exponent x \<le> x" unfolding p1 using a1 by linarith
  have 2: "x < 2 powi (binary_exponent x + 1)" unfolding p2 using a2 by linarith
  show ?thesis using 1 2 ..
next
  case False
  assume x: "0 < x"
  define m where "m = \<lceil>1 / x\<rceil> - 1"
  have y: "1 < 1 / x" using False x by simp
  have m: "0 < m" unfolding m_def using y by linarith
  have my: "of_int m < 1 / x" "1 / x \<le> of_int m + 1" unfolding m_def by linarith+
  have b: "1 \<le> bitlen m" using m bitlen_eq_zero_iff [of m] bitlen_nonneg [of m] by linarith
  have e: "binary_exponent x = - bitlen m" using False by (simp add: binary_exponent_def m_def)
  have "binary_exponent x = - int (nat (bitlen m))" using b e by simp
  then have "2 powi binary_exponent x = inverse ((2::real) powi int (nat (bitlen m)))"
    by (simp only: power_int_minus)
  then have p1: "2 powi binary_exponent x = 1 / (2::real) ^ nat (bitlen m)"
    by (simp only: power_int_of_nat inverse_eq_divide)
  have "binary_exponent x + 1 = - int (nat (bitlen m - 1))" using b e by simp
  then have "2 powi (binary_exponent x + 1) = inverse ((2::real) powi int (nat (bitlen m - 1)))"
    by (simp only: power_int_minus)
  then have p2: "2 powi (binary_exponent x + 1) = 1 / (2::real) ^ nat (bitlen m - 1)"
    by (simp only: power_int_of_nat inverse_eq_divide)
  have "m + 1 \<le> 2 ^ nat (bitlen m)" using bitlen_bounds [OF m] by linarith
  then have "real_of_int (m + 1) \<le> real_of_int (2 ^ nat (bitlen m))" by (simp only: of_int_le_iff)
  then have a2: "of_int m + 1 \<le> (2::real) ^ nat (bitlen m)"
    by (simp only: of_int_add of_int_1 of_int_power of_int_numeral)
  have a1: "(2::real) ^ nat (bitlen m - 1) \<le> of_int m" using bitlen_bounds [OF m] by simp
  have "1 / x \<le> 2 ^ nat (bitlen m)" using a2 my by linarith
  then have 1: "2 powi binary_exponent x \<le> x" unfolding p1 using x by (simp add: field_simps)
  have "2 ^ nat (bitlen m - 1) < 1 / x" using a1 my by linarith
  then have 2: "x < 2 powi (binary_exponent x + 1)" unfolding p2 using x by (simp add: field_simps)
  show ?thesis using 1 2 ..
qed

lemma binary_exponent_unique:
  assumes "0 < x" "2 powi e \<le> x" "x < 2 powi (e + 1)"
  shows "binary_exponent x = e"
proof -
  have b: "2 powi binary_exponent x \<le> x" "x < 2 powi (binary_exponent x + 1)" using binary_exponent_bounds [OF assms(1)] by simp_all
  have "(2::real) powi binary_exponent x < 2 powi (e + 1)" using b(1) assms(3) by linarith
  then have 1: "binary_exponent x < e + 1"
    using power_int_increasing [of "e + 1" "binary_exponent x" "2::real"] by (cases "binary_exponent x < e + 1") auto
  have "(2::real) powi e < 2 powi (binary_exponent x + 1)" using b(2) assms(2) by linarith
  then have 2: "e < binary_exponent x + 1"
    using power_int_increasing [of "binary_exponent x + 1" e "2::real"] by (cases "e < binary_exponent x + 1") auto
  show ?thesis using 1 2 by linarith
qed

lemma double_pos_exact:
  assumes m: "0 < m" "m < 2 ^ 53"
  shows "double_pos (of_int m * 2 powi j) = of_int m * 2 powi j"
proof -
  let ?x = "real_of_int m * 2 powi j"
  let ?e = "binary_exponent ?x"
  have x: "0 < ?x" using m by simp
  have "real_of_int m < 2 ^ 53" using m(2) by simp
  then have "?x < 2 ^ 53 * 2 powi j" by simp
  also have "\<dots> = 2 powi (53 + j)" by (simp add: power_int_add)
  finally have "2 powi ?e < (2::real) powi (53 + j)" using binary_exponent_bounds [OF x] by linarith
  then have "?e < 53 + j"
    using power_int_increasing [of "53 + j" "?e" "2::real"] by (cases "?e < 53 + j") auto
  then have k: "0 \<le> j + (52 - ?e)" by linarith
  define n where "n = nat (j + (52 - ?e))"
  have pn: "(2::real) powi (j + (52 - ?e)) = 2 ^ n"
    unfolding n_def by (rule power_int_nonneg_exp [OF k])
  have "?x * 2 powi (52 - ?e) = of_int m * (2 powi j * 2 powi (52 - ?e))" by (simp only: mult.assoc)
  also have "2 powi j * 2 powi (52 - ?e) = (2::real) powi (j + (52 - ?e))"
    by (rule power_int_add [symmetric]) simp
  also have "of_int m * (2::real) powi (j + (52 - ?e)) = of_int (m * 2 ^ n)"
    by (simp only: pn of_int_mult of_int_power of_int_numeral)
  finally have r: "round_half_even (?x * 2 powi (52 - ?e)) = m * 2 ^ n"
    by (simp only: round_half_even_of_int)
  have "double_pos ?x = of_int (m * 2 ^ n) * 2 powi (?e - 52)"
    by (simp only: double_pos_def Let_def r)
  also have "\<dots> = of_int m * (2 powi (j + (52 - ?e)) * 2 powi (?e - 52))"
    by (simp only: pn of_int_mult of_int_power of_int_numeral mult.assoc)
  also have "2 powi (j + (52 - ?e)) * 2 powi (?e - 52) = (2::real) powi (j + (52 - ?e) + (?e - 52))"
    by (rule power_int_add [symmetric]) simp
  also have "j + (52 - ?e) + (?e - 52) = j" by simp
  finally show ?thesis .
qed

lemma double_pos_near:
  assumes x: "0 < x"
  shows "\<bar>double_pos x - x\<bar> \<le> 2 powi (binary_exponent x - 53)"
proof -
  let ?e = "binary_exponent x"
  let ?y = "x * 2 powi (52 - ?e)"
  have u: "0 < (2::real) powi (?e - 52)" by simp
  have "x = ?y * 2 powi (?e - 52)" by (simp add: mult.assoc flip: power_int_add)
  then have "double_pos x - x = (of_int (round_half_even ?y) - ?y) * 2 powi (?e - 52)"
    by (simp add: double_pos_def Let_def algebra_simps)
  then have "\<bar>double_pos x - x\<bar> = \<bar>of_int (round_half_even ?y) - ?y\<bar> * 2 powi (?e - 52)"
    using u by (simp add: abs_mult)
  also have "\<dots> \<le> 1 / 2 * 2 powi (?e - 52)"
    using round_half_even_near [of ?y] u by (intro mult_right_mono) simp_all
  also have "\<dots> = 2 powi (?e - 53)"
    using power_int_add [of "2::real" "-1" "?e - 52"] by (simp add: power_int_minus)
  finally show ?thesis .
qed

lemma double_pos_range:
  assumes x: "0 < x"
  shows "2 powi binary_exponent x \<le> double_pos x \<and> double_pos x \<le> 2 powi (binary_exponent x + 1)"
proof -
  let ?e = "binary_exponent x"
  let ?y = "x * 2 powi (52 - ?e)"
  have u: "0 < (2::real) powi (52 - ?e)" "0 < (2::real) powi (?e - 52)" by simp_all
  have "2 powi ?e * 2 powi (52 - ?e) \<le> ?y" using binary_exponent_bounds [OF x] u by (intro mult_right_mono) simp_all
  then have lo: "of_int (2 ^ 52) \<le> ?y" by (simp flip: power_int_add)
  have "?y \<le> 2 powi (?e + 1) * 2 powi (52 - ?e)" using binary_exponent_bounds [OF x] u by (intro mult_right_mono) simp_all
  then have hi: "?y \<le> of_int (2 ^ 53)" by (simp flip: power_int_add)
  have "2 ^ 52 \<le> round_half_even ?y" using round_half_even_mono [OF lo] by (simp only: round_half_even_of_int)
  then have "(2::real) ^ 52 \<le> of_int (round_half_even ?y)" by simp
  then have "2 ^ 52 * 2 powi (?e - 52) \<le> double_pos x"
    unfolding double_pos_def Let_def using u by (intro mult_right_mono) simp_all
  then have 1: "2 powi ?e \<le> double_pos x" using power_int_add [of "2::real" 52 "?e - 52"] by simp
  have "round_half_even ?y \<le> 2 ^ 53" using round_half_even_mono [OF hi] by (simp only: round_half_even_of_int)
  then have "of_int (round_half_even ?y) \<le> (2::real) ^ 53" by simp
  then have "double_pos x \<le> 2 ^ 53 * 2 powi (?e - 52)"
    unfolding double_pos_def Let_def using u by (intro mult_right_mono) simp_all
  moreover have "(2::real) ^ 53 * 2 powi (?e - 52) = 2 powi (53 + (?e - 52))"
    using power_int_add [of "2::real" 53 "?e - 52"] by simp
  moreover have "53 + (?e - 52) = ?e + 1" by simp
  ultimately have 2: "double_pos x \<le> 2 powi (?e + 1)" by (simp only:)
  show ?thesis using 1 2 ..
qed

lemma double_pos_mono:
  assumes x: "0 < x" and xy: "x \<le> y"
  shows "double_pos x \<le> double_pos y"
proof -
  have y: "0 < y" using x xy by linarith
  have "2 powi binary_exponent x < (2::real) powi (binary_exponent y + 1)"
    using binary_exponent_bounds [OF x] binary_exponent_bounds [OF y] xy by linarith
  then have le: "binary_exponent x \<le> binary_exponent y"
    using power_int_increasing [of "binary_exponent y + 1" "binary_exponent x" "2::real"] by (cases "binary_exponent x < binary_exponent y + 1") auto
  show ?thesis
  proof (cases "binary_exponent x = binary_exponent y")
    case True
    have u: "0 < (2::real) powi (52 - binary_exponent y)" "0 < (2::real) powi (binary_exponent y - 52)" by simp_all
    have "x * 2 powi (52 - binary_exponent y) \<le> y * 2 powi (52 - binary_exponent y)" using xy u by (intro mult_right_mono) simp_all
    then have "round_half_even (x * 2 powi (52 - binary_exponent y)) \<le> round_half_even (y * 2 powi (52 - binary_exponent y))"
      by (rule round_half_even_mono)
    then have "real_of_int (round_half_even (x * 2 powi (52 - binary_exponent y)))
        \<le> real_of_int (round_half_even (y * 2 powi (52 - binary_exponent y)))" by simp
    then show ?thesis unfolding double_pos_def Let_def True using u by (intro mult_right_mono) simp_all
  next
    case False
    then have "binary_exponent x + 1 \<le> binary_exponent y" using le by linarith
    then have "(2::real) powi (binary_exponent x + 1) \<le> 2 powi binary_exponent y" by (intro power_int_increasing) simp_all
    then show ?thesis using double_pos_range [OF x] double_pos_range [OF y] by linarith
  qed
qed

lemma double_pos_pos: "0 < x \<Longrightarrow> 0 < double_pos x"
  using double_pos_range [of x] zero_less_power_int [of "2::real" "binary_exponent x"] by linarith

lemma double_0 [simp]: "double 0 = 0"
  by (simp add: double_def)

lemma double_minus: "double (- x) = - double x"
  by (simp add: double_def)

lemma double_mono: "x \<le> y \<Longrightarrow> double x \<le> double y"
  using double_pos_mono [of x y] double_pos_mono [of "- y" "- x"] double_pos_pos [of y] double_pos_pos [of "- x"]
  by (auto simp: double_def)

lemma double_exact:
  assumes "\<bar>m\<bar> < 2 ^ 53"
  shows "double (of_int m * 2 powi j) = of_int m * 2 powi j"
proof -
  have u: "0 < (2::real) powi j" by simp
  define x where "x = real_of_int m * 2 powi j"
  consider "m = 0" | "0 < m" | "m < 0" by linarith
  then have "double x = x"
  proof cases
    case 1
    then show ?thesis by (simp add: x_def)
  next
    case 2
    then have "0 < x" using u by (simp add: x_def)
    then have "double x = double_pos x" by (simp add: double_def)
    also have "\<dots> = x" unfolding x_def using 2 assms by (intro double_pos_exact) simp_all
    finally show ?thesis .
  next
    case 3
    then have "x < 0" using u by (simp add: x_def mult_less_0_iff)
    then have "double x = - double_pos (- x)" by (simp add: double_def)
    also have "- x = real_of_int (- m) * 2 powi j" by (simp add: x_def)
    also have "double_pos (real_of_int (- m) * 2 powi j) = real_of_int (- m) * 2 powi j"
      using 3 assms by (intro double_pos_exact) simp_all
    also have "- (real_of_int (- m) * 2 powi j) = x" by (simp add: x_def)
    finally show ?thesis .
  qed
  then show ?thesis by (simp only: x_def)
qed

lemma double_of_int: "\<bar>m\<bar> < 2 ^ 53 \<Longrightarrow> double (of_int m) = of_int m"
  using double_exact [of m 0] by simp

lemma double_near: "\<bar>double x - x\<bar> \<le> \<bar>x\<bar> / 2 ^ 53"
proof -
  have p: "\<bar>double_pos z - z\<bar> \<le> z / 2 ^ 53" if z: "0 < z" for z
  proof -
    have "2 powi (binary_exponent z - 53) = 2 powi binary_exponent z / (2::real) ^ 53"
      using power_int_add [of "2::real" "binary_exponent z" "-53"] by (simp add: power_int_minus field_simps)
    also have "\<dots> \<le> z / 2 ^ 53" using binary_exponent_bounds [OF z] by (simp add: divide_right_mono)
    finally show ?thesis using double_pos_near [OF z] by linarith
  qed
  consider "x = 0" | "0 < x" | "x < 0" by linarith
  then show ?thesis
  proof cases
    case 1
    then show ?thesis by simp
  next
    case 2
    then show ?thesis using p [of x] by (simp add: double_def)
  next
    case 3
    then have "\<bar>double_pos (- x) - (- x)\<bar> \<le> (- x) / 2 ^ 53" using p [of "- x"] by simp
    moreover have "double x - x = - (double_pos (- x) - (- x))" using 3 by (simp add: double_def)
    ultimately show ?thesis using 3 by (simp only: abs_minus_cancel abs_of_neg)
  qed
qed

lemma double_numeral [simp]:
  "(numeral n :: int) < 9007199254740992 \<Longrightarrow> double (numeral n) = numeral n"
  using double_of_int [of "numeral n"] by simp

lemma double_neg_numeral [simp]:
  "(numeral n :: int) < 9007199254740992 \<Longrightarrow> double (- numeral n) = - numeral n"
  using double_of_int [of "- numeral n"] by simp

lemma double_1 [simp]: "double 1 = 1"
  using double_of_int [of 1] by simp

lemma double_minus_1 [simp]: "double (- 1) = - 1"
  by (simp add: double_minus)

lemma double_values:
  "double (double (1 / 1000) * 1000) = 1"
  "double (3 / 2) = 3 / 2"
  "double (5 / 2) = 5 / 2"
  "double (1 / 2) = 1 / 2"
  by code_simp+

lemma double_sample_times:
  "double (double (double (1 / 1500) * 1000)) = 6004799503160661 / 9007199254740992"
  "double (double (double (1 / 750) * 1000)) = 6004799503160661 / 4503599627370496"
  "double (double (1 / 500) * 1000) = 2"
  "double (double (double (203 / 100) * 1000)) = 8928034417541119 / 4398046511104"
  "double (double (double (201 / 100) * 1000)) = 8840073487319039 / 4398046511104"
  "double (double (1 / 50) * 1000) = 20"
  "double (double (1 / 100) * 1000) = 10"
  "double (2019 / 10) = 7103724724735181 / 35184372088832"
  "double (double (double (1 / 3) * 1000)) = 5864062014805333 / 17592186044416"
  by code_simp+

lemma double_even: "\<bar>m\<bar> < 2 ^ 53 \<Longrightarrow> double (of_int (2 * m)) = of_int (2 * m)"
  using double_exact [of m 1] by (simp add: mult.commute)

lemma double_Date: "Date_range t \<Longrightarrow> double (of_int t) = of_int t"
  by (rule double_of_int) (simp add: Date_range_def)

lemma TimeClip_of_int [simp]: "TimeClip (of_int z) = z"
  by (simp add: TimeClip_def)

lemma TimeClip_mono: "x \<le> y \<Longrightarrow> TimeClip x \<le> TimeClip y"
proof -
  assume xy: "x \<le> y"
  have 1: "\<lceil>x\<rceil> \<le> \<lfloor>y\<rfloor>" if "x < 0" "0 \<le> y"
  proof -
    have "\<lceil>x\<rceil> \<le> 0" using that by (simp add: ceiling_le_zero)
    moreover have "0 \<le> \<lfloor>y\<rfloor>" using that by simp
    ultimately show ?thesis by linarith
  qed
  show ?thesis
    using floor_mono [OF xy] ceiling_mono [OF xy] 1 xy by (auto simp: TimeClip_def)
qed

subsection \<open>Segments and Seismograms\<close>

lemma checkStringOrDate_moment [simp]: "checkStringOrDate d = d"
  by (simp add: checkStringOrDate_def)

lemma length_write_from: "length (fst (write_from fr k out i vs)) = length out"
  by (induction vs arbitrary: out i) auto


lemma fst_write_from:
  "i + length vs \<le> length out \<Longrightarrow>
   fst (write_from fr k out i vs) = take i out @ map (store_elem fr k) vs @ drop (i + length vs) out"
proof (induction vs arbitrary: out i)
  case Nil
  then show ?case by simp
next
  case (Cons v vs)
  have "i < length out" using Cons.prems by simp
  then have "take (Suc i) (out[i := store_elem fr k v]) = take i out @ [store_elem fr k v]"
    by (simp add: take_Suc_conv_app_nth)
  then show ?case using Cons by simp
qed

lemma foldl_numSamples:
  "foldl (\<lambda>out c. out + numSamples c) n cs = n + sum_list (map numSamples cs)"
  by (induction cs arbitrary: n) auto

lemma decode_length: "decode c = Inr a \<Longrightarrow> length (elems a) = numSamples c"
  by (auto simp: decode_def split: option.splits if_splits)

lemma length_decode_chunks:
  "decode_chunks fr k out i cs = Inr r \<Longrightarrow> length r = length out"
proof (induction cs arbitrary: out i)
  case Nil
  then show ?case by simp
next
  case (Cons c cs)
  then show ?case by (auto split: sum.splits simp: length_write_from)
qed

lemma decode_chunks_ok:
  "\<forall>c\<in>set cs. \<exists>a. decode c = Inr a \<Longrightarrow> i + sum_list (map numSamples cs) \<le> length out \<Longrightarrow>
   decode_chunks fr k out i cs =
     Inr (take i out @ concat (map (chunk_samples fr k) cs) @ drop (i + sum_list (map numSamples cs)) out)"
proof (induction cs arbitrary: out i)
  case Nil
  then show ?case by simp
next
  case (Cons c cs)
  from Cons.prems obtain a where a: "decode c = Inr a" by auto
  have len: "length (elems a) = numSamples c" using a by (rule decode_length)
  have m: "map (\<lambda>i. elems a ! i) [0..<numSamples c] = elems a"
    using len by (metis map_nth)
  let ?out' = "fst (write_from fr k out i (elems a))"
  have out': "?out' = take i out @ map (store_elem fr k) (elems a) @ drop (i + numSamples c) out"
    using Cons.prems len by (simp add: fst_write_from)
  have l: "length ?out' = length out" by (simp add: length_write_from)
  have ih: "decode_chunks fr k ?out' (i + numSamples c) cs =
     Inr (take (i + numSamples c) ?out' @ concat (map (chunk_samples fr k) cs) @
          drop (i + numSamples c + sum_list (map numSamples cs)) ?out')"
    using Cons.prems by (intro Cons.IH) (auto simp: l)
  have t: "take (i + numSamples c) ?out' = take i out @ map (store_elem fr k) (elems a)"
    using Cons.prems len by (simp add: out')
  have d: "drop (i + numSamples c + sum_list (map numSamples cs)) ?out'
         = drop (i + numSamples c + sum_list (map numSamples cs)) out"
    using Cons.prems len by (simp add: out' ac_simps)
  have c0: "chunk_samples fr k c = map (store_elem fr k) (elems a)"
    using a by (simp add: chunk_samples_def)
  show ?case using a m ih t d c0 by (simp add: ac_simps)
qed

lemma seg_y_decoded: "priv_y s = Some a \<Longrightarrow> seg_y fr s = Inr (a, s)"
  by (simp add: seg_y_def)

lemma seg_y_encoded:
  assumes y: "priv_y s = None" and c: "priv_compressed s = Some cs" and ne: "cs \<noteq> []"
    and ok: "\<forall>c\<in>set cs. \<exists>a. decode c = Inr a"
  defines "k \<equiv> array_kind_of (compressionType (hd cs))"
  shows "seg_y fr s =
     Inr (TypedArray k (concat (map (chunk_samples fr k) cs)),
          s\<lparr>priv_y := Some (TypedArray k (concat (map (chunk_samples fr k) cs))),
            priv_compressed := None\<rparr>)"
proof -
  obtain c0 cs' where cs: "cs = c0 # cs'" using ne by (cases cs) auto
  have enc: "seg_isEncoded s" using y c ne by (simp add: seg_isEncoded_def)
  have n: "seg_numPoints s = sum_list (map numSamples cs)"
    using y c by (simp add: seg_numPoints_def foldl_numSamples)
  have "decode_chunks fr k (new_array k (seg_numPoints s)) 0 cs =
        Inr (concat (map (chunk_samples fr k) cs))"
    using decode_chunks_ok [OF ok, of 0 "new_array k (seg_numPoints s)" fr k] n
    by (simp add: new_array_def)
  then show ?thesis using y c enc cs by (simp add: seg_y_def k_def Let_def del: decode_chunks.simps)
qed

lemma length_chunk_samples:
  "\<exists>a. decode c = Inr a \<Longrightarrow> length (chunk_samples fr k c) = numSamples c"
  by (auto simp: chunk_samples_def dest: decode_length)

lemma length_concat_chunk_samples:
  "\<forall>c\<in>set cs. \<exists>a. decode c = Inr a \<Longrightarrow>
   length (concat (map (chunk_samples fr k) cs)) = sum_list (map numSamples cs)"
  by (induction cs) (auto simp: length_chunk_samples)

lemma seg_y_frame:
  assumes "seg_y fr s = Inr (a, s')"
  shows "s' = s\<lparr>priv_y := Some a, priv_compressed := (if priv_y s = None then None else priv_compressed s)\<rparr>"
    and "length (elems a) = seg_numPoints s"
proof -
  show "s' = s\<lparr>priv_y := Some a, priv_compressed := (if priv_y s = None then None else priv_compressed s)\<rparr>"
    using assms by (auto simp: seg_y_def Let_def simp del: decode_chunks.simps
        split: option.splits if_splits list.splits sum.splits)
  show "length (elems a) = seg_numPoints s"
  proof (cases "priv_y s")
    case None
    then obtain cs out where "decode_chunks fr (kind a) (new_array (kind a) (seg_numPoints s)) 0 cs = Inr out"
      and "a = TypedArray (kind a) out"
      using assms by (auto simp: seg_y_def Let_def simp del: decode_chunks.simps
        split: option.splits if_splits list.splits sum.splits)
    then show ?thesis using length_decode_chunks [of fr "kind a" _ 0 cs out]
      by (metis length_replicate new_array_def typed_array.sel(2))
  next
    case (Some b)
    then show ?thesis using assms by (simp add: seg_y_def seg_numPoints_def)
  qed
qed

lemma seg_y_numPoints: "seg_y fr s = Inr (a, s') \<Longrightarrow> seg_numPoints s' = seg_numPoints s"
  using seg_y_frame [of fr s a s'] by (simp add: seg_numPoints_def)


lemma cache_ok_endTime: "cache_ok s \<Longrightarrow> fst (seg_endTime s) = seg_timeOfSample s (int (seg_numPoints s) - 1)"
  by (auto simp: cache_ok_def seg_endTime_def seg_recalc_endTime_def Let_def split: option.splits)

lemma cache_ok_new: "cache_ok (new_SeismogramSegment d sr st)"
  by (simp add: cache_ok_def new_SeismogramSegment_def)

lemma cache_ok_invalidate: "cache_ok (seg_invalidate_endTime_cache s)"
  by (simp add: cache_ok_def seg_invalidate_endTime_cache_def)

lemma seg_numPoints_cache [simp]:
  "seg_numPoints (s\<lparr>priv_endTime_cache := c\<rparr>) = seg_numPoints s"
  "seg_numPoints (s\<lparr>priv_endTime_cache_numPoints := n\<rparr>) = seg_numPoints s"
  by (simp_all add: seg_numPoints_def split: option.splits)

lemma seg_timeOfSample_cache [simp]:
  "seg_timeOfSample (s\<lparr>priv_endTime_cache := c\<rparr>) i = seg_timeOfSample s i"
  "seg_timeOfSample (s\<lparr>priv_endTime_cache_numPoints := n\<rparr>) i = seg_timeOfSample s i"
  by (simp_all add: seg_timeOfSample_def)

lemma seg_numPoints_frame:
  "seg_numPoints (s\<lparr>priv_startTime := t\<rparr>) = seg_numPoints s"
  "seg_numPoints (s\<lparr>priv_sampleRate := r\<rparr>) = seg_numPoints s"
  by (simp_all add: seg_numPoints_def split: option.splits)

lemma seg_numPoints_invalidate:
  "seg_numPoints (seg_invalidate_endTime_cache s) = seg_numPoints s"
  by (simp add: seg_invalidate_endTime_cache_def)

lemma cache_ok_endTime_state: "cache_ok s \<Longrightarrow> cache_ok (snd (seg_endTime s))"
  by (auto simp: cache_ok_def seg_endTime_def seg_recalc_endTime_def Let_def split: option.splits)

lemma cache_ok_seg_y: "cache_ok s \<Longrightarrow> seg_y fr s = Inr (a, s') \<Longrightarrow> cache_ok s'"
  using seg_y_frame(1) [of fr s a s'] seg_y_numPoints [of fr s a s']
  by (auto simp: cache_ok_def seg_timeOfSample_def split: option.splits)

lemma cache_ok_do: "cache_ok s \<Longrightarrow> cache_ok (seg_do fr s x)"
  by (cases x) (auto simp: seg_set_y_def seg_set_startTime_def seg_set_sampleRate_def
      cache_ok_invalidate cache_ok_endTime_state cache_ok_seg_y split: sum.splits)

lemma cache_ok_run: "cache_ok s \<Longrightarrow> cache_ok (seg_run fr s ops)"
  unfolding seg_run_def by (induction ops arbitrary: s) (auto simp: cache_ok_do)

lemma seg_endTime_twice: "seg_endTime (snd (seg_endTime s)) = seg_endTime s"
  by (auto simp: seg_endTime_def seg_recalc_endTime_def Let_def split: option.splits)

lemma seg_endTime_cached: "priv_endTime_cache (snd (seg_endTime s)) = Some (fst (seg_endTime s))"
  by (auto simp: seg_endTime_def seg_recalc_endTime_def Let_def split: option.splits)

lemma not_encoded_do: "priv_compressed s = None \<Longrightarrow> priv_compressed (seg_do fr s x) = None"
proof (cases x)
  case Get_y
  assume c: "priv_compressed s = None"
  show ?thesis
  proof (cases "seg_y fr s")
    case (Inl e)
    then show ?thesis using Get_y c by simp
  next
    case (Inr p)
    obtain a s' where "p = (a, s')" by (cases p)
    then show ?thesis using Get_y c Inr seg_y_frame(1) [of fr s a s'] by simp
  qed
qed (auto simp: seg_set_y_def seg_set_startTime_def seg_set_sampleRate_def
      seg_invalidate_endTime_cache_def seg_endTime_def seg_recalc_endTime_def Let_def
      split: option.splits)

lemma not_encoded_run: "priv_compressed s = None \<Longrightarrow> priv_compressed (seg_run fr s ops) = None"
  unfolding seg_run_def by (induction ops arbitrary: s) (auto simp: not_encoded_do)

lemma not_encoded: "priv_compressed s = None \<Longrightarrow> \<not> seg_isEncoded s"
  by (simp add: seg_isEncoded_def)

lemma readable_iff: "readable fr seg y \<longleftrightarrow> (\<exists>seg'. seg_y fr seg = Inr (y, seg'))"
  by (auto simp: readable_def split: sum.splits)

lemma minmax_scan_append: "minmax_scan (xs @ ys) acc = minmax_scan ys (minmax_scan xs acc)"
  by (induction xs acc rule: minmax_scan.induct) simp_all

lemma seg_findMinMax_value:
  "seg_y fr s = Inr (y, s') \<Longrightarrow> seg_findMinMax fr s acc = Inr (minmax_scan (elems y) (minmax_start acc))"
  by (simp add: seg_findMinMax_def minmax_start_def)

lemma seis_findMinMax_loop_chunks:
  "list_all2 (readable fr) segs ys \<Longrightarrow>
   seis_findMinMax_loop fr segs acc =
     Inr (if segs = [] then acc else Some (minmax_scan (concat (map elems ys)) (minmax_start acc)))"
proof (induction segs ys arbitrary: acc rule: list_all2_induct)
  case Nil
  then show ?case by simp
next
  case (Cons seg segs y ys)
  from Cons.hyps(1) obtain seg' where y: "seg_y fr seg = Inr (y, seg')" by (auto simp: readable_iff)
  have e: "segs = [] \<Longrightarrow> ys = []" using Cons.hyps(2) by simp
  have m: "minmax_start (Some p) = p" for p by (simp add: minmax_start_def)
  have n: "minmax_scan [] p = p" for p by (cases p) simp
  show ?case
    using seg_findMinMax_value [OF y, of acc] Cons.IH [of "Some (minmax_scan (elems y) (minmax_start acc))"] e
    by (auto simp: minmax_scan_append m n)
qed

lemma seis_numPoints_sum: "seis_numPoints s = sum_list (map seg_numPoints (priv_segmentArray s))"
proof -
  have "foldl (\<lambda>accumulator seis. accumulator + seg_numPoints seis) n segs
        = n + sum_list (map seg_numPoints segs)" for n segs
    by (induction segs arbitrary: n) auto
  then show ?thesis by (simp add: seis_numPoints_def)
qed

lemma seg_endTime_frame:
  "snd (seg_endTime s) = s \<or>
   snd (seg_endTime s) = s\<lparr>priv_endTime_cache := Some (seg_timeOfSample s (int (seg_numPoints s) - 1)),
                            priv_endTime_cache_numPoints := seg_numPoints s\<rparr>"
  by (auto simp: seg_endTime_def seg_recalc_endTime_def Let_def split: option.splits)

lemma seg_endTime_numPoints [simp]: "seg_numPoints (snd (seg_endTime s)) = seg_numPoints s"
  using seg_endTime_frame [of s] by auto

lemma checkSimilar_None:
  "checkSimilar f s = None \<longleftrightarrow>
     networkCode s = networkCode f \<and> stationCode s = stationCode f \<and> locationCode s = locationCode f
     \<and> channelCode s = channelCode f \<and> yUnit s = yUnit f \<and> priv_sampleRate s = priv_sampleRate f"
  by (simp add: checkSimilar_def)

lemma seg_endTime_sampleRate [simp]: "priv_sampleRate (snd (seg_endTime s)) = priv_sampleRate s"
  using seg_endTime_frame [of s] by auto

lemma seg_endTime_startTime [simp]: "priv_startTime (snd (seg_endTime s)) = priv_startTime s"
  using seg_endTime_frame [of s] by auto

lemma fst_seg_endTime_twice [simp]: "fst (seg_endTime (snd (seg_endTime s))) = fst (seg_endTime s)"
  by (simp add: seg_endTime_twice)

lemma isContiguous_loop_value:
  "fst (isContiguous_loop before prev segs)
     = all_adjacent gap_ok ((case prev of None \<Rightarrow> [] | Some p \<Rightarrow> [p]) @ segs)"
proof (induction before prev segs rule: isContiguous_loop.induct)
  case (4 before prev s rest)
  show ?case
  proof (cases "gap_ok prev s")
    case True
    then have c1: "fst (seg_endTime prev) < priv_startTime s"
      and c2: "priv_startTime s < moment_add_ms (fst (seg_endTime (snd (seg_endTime prev))))
                 (double (double (1000 * 1.5)
                          / priv_sampleRate (snd (seg_endTime (snd (seg_endTime prev))))))"
      by (simp_all add: gap_ok_def)
    show ?thesis
      using True 4 [OF refl prod.collapse c1 refl prod.collapse refl refl c2]
      by (simp add: gap_ok_def split_beta Let_def)
  next
    case False
    then show ?thesis by (auto simp: gap_ok_def split_beta Let_def)
  qed
qed simp_all

lemma seis_isContiguous_value:
  "fst (seis_isContiguous s) = all_adjacent gap_ok (priv_segmentArray s)"
proof (cases "length (priv_segmentArray s) = 1")
  case True
  then obtain x where "priv_segmentArray s = [x]" by (cases "priv_segmentArray s") auto
  then show ?thesis by (simp add: seis_isContiguous_def)
next
  case False
  then show ?thesis
    using isContiguous_loop_value [of "[]" None "priv_segmentArray s"]
    by (simp add: seis_isContiguous_def split_beta)
qed

lemma double_le_of_int: "x \<le> of_int m \<Longrightarrow> \<bar>m\<bar> < 2 ^ 53 \<Longrightarrow> double x \<le> of_int m"
  using double_mono [of x "of_int m"] double_of_int [of m] by simp

lemma of_int_le_double: "of_int m \<le> x \<Longrightarrow> \<bar>m\<bar> < 2 ^ 53 \<Longrightarrow> of_int m \<le> double x"
  using double_mono [of "of_int m" x] double_of_int [of m] by simp

lemma shifted_two_periods:
  assumes r: "0 < r" and g: "real_of_int s = real_of_int e + 2 * (1000 / r)"
    and e: "Date_range e" and s: "Date_range s"
  shows "\<not> moment_add_ms e (double (double (1000 * 1.5) / r)) > s"
proof -
  define D where "D = s - e"
  have D: "real_of_int D = 2 * (1000 / r)" using g by (simp add: D_def)
  have "0 < real_of_int D" unfolding D using r by simp
  then have Dpos: "0 < D" by simp
  have q: "double (1000 * 1.5) / r = 3 * real_of_int D / 4" using D by simp
  have a: "double (3 * real_of_int D / 4) \<le> real_of_int D"
  proof (cases "D < 2 ^ 53")
    case True
    have "3 * real_of_int D / 4 \<le> of_int D" using Dpos by simp
    then show ?thesis using True Dpos by (intro double_le_of_int) simp_all
  next
    case False
    define h where "h = D div 2"
    have h: "\<bar>h\<bar> < 2 ^ 53" using e s Dpos by (simp add: Date_range_def D_def h_def)
    have y: "2 * h \<le> D" "D - 1 \<le> 2 * h" by (simp_all add: h_def)
    have "4 \<le> D" using False by simp
    then have "3 * D \<le> 4 * (D - 1)" by simp
    then have "3 * D \<le> 4 * (2 * h)" using y(2) by presburger
    then have "real_of_int (3 * D) \<le> real_of_int (4 * (2 * h))" by (simp only: of_int_le_iff)
    then have "3 * real_of_int D / 4 \<le> real_of_int (2 * h)" by simp
    then have "double (3 * real_of_int D / 4) \<le> double (real_of_int (2 * h))" by (rule double_mono)
    also have "\<dots> = real_of_int (2 * h)" using h by (rule double_even)
    also have "\<dots> \<le> real_of_int D" using y by (simp only: of_int_le_iff)
    finally show ?thesis .
  qed
  have "real_of_int e + double (3 * real_of_int D / 4) \<le> real_of_int s"
    using a by (simp add: D_def)
  then have "double (real_of_int e + double (3 * real_of_int D / 4)) \<le> double (real_of_int s)"
    by (rule double_mono)
  then have "double (real_of_int e + double (3 * real_of_int D / 4)) \<le> real_of_int s"
    by (simp only: double_Date [OF s])
  then have "TimeClip (double (real_of_int e + double (3 * real_of_int D / 4))) \<le> TimeClip (real_of_int s)"
    by (rule TimeClip_mono)
  then show ?thesis by (simp only: moment_add_ms_def q TimeClip_of_int)
qed

lemma shifted_one_period:
  assumes g: "real_of_int s = real_of_int e + 1000 / r" and p: "2 \<le> 1000 / r"
    and e: "Date_range e" and s: "Date_range s"
  shows "moment_add_ms e (double (double (1000 * 1.5) / r)) > s"
proof -
  define D where "D = s - e"
  have D: "real_of_int D = 1000 / r" using g by (simp add: D_def)
  have "2 \<le> real_of_int D" unfolding D using p .
  then have D2: "2 \<le> D" by simp
  have q: "double (1000 * 1.5) / r = 3 * real_of_int D / 2" using D by simp
  have a: "real_of_int D + 1 \<le> double (3 * real_of_int D / 2)"
  proof (cases "D + 1 < 2 ^ 53")
    case True
    have "real_of_int (2 * (D + 1)) \<le> real_of_int (3 * D)" using D2 by (simp only: of_int_le_iff) simp
    then have "of_int (D + 1) \<le> 3 * real_of_int D / 2" by simp
    then have "of_int (D + 1) \<le> double (3 * real_of_int D / 2)"
      using True D2 by (intro of_int_le_double) simp_all
    then show ?thesis by simp
  next
    case False
    define h where "h = (D + 2) div 2"
    have h: "\<bar>h\<bar> < 2 ^ 53" using e s D2 by (simp add: Date_range_def D_def h_def)
    have y: "D + 1 \<le> 2 * h" "2 * h \<le> D + 2" by (simp_all add: h_def)
    have "4 \<le> D" using False by simp
    then have "2 * (D + 2) \<le> 3 * D" by simp
    then have "2 * (2 * h) \<le> 3 * D" using y(2) by presburger
    then have "real_of_int (2 * (2 * h)) \<le> real_of_int (3 * D)" by (simp only: of_int_le_iff)
    then have "real_of_int (2 * h) \<le> 3 * real_of_int D / 2" by simp
    then have "double (real_of_int (2 * h)) \<le> double (3 * real_of_int D / 2)" by (rule double_mono)
    then have "real_of_int (2 * h) \<le> double (3 * real_of_int D / 2)"
      by (simp only: double_even [OF h])
    moreover have "real_of_int (D + 1) \<le> real_of_int (2 * h)" using y by (simp only: of_int_le_iff)
    ultimately show ?thesis by simp
  qed
  have s1: "\<bar>s + 1\<bar> < 2 ^ 53" using s by (simp add: Date_range_def)
  have "real_of_int (s + 1) \<le> real_of_int e + double (3 * real_of_int D / 2)"
    using a by (simp add: D_def)
  then have "double (real_of_int (s + 1)) \<le> double (real_of_int e + double (3 * real_of_int D / 2))"
    by (rule double_mono)
  then have "real_of_int (s + 1) \<le> double (real_of_int e + double (3 * real_of_int D / 2))"
    by (simp only: double_of_int [OF s1])
  then have "TimeClip (real_of_int (s + 1)) \<le> TimeClip (double (real_of_int e + double (3 * real_of_int D / 2)))"
    by (rule TimeClip_mono)
  then show ?thesis by (simp only: moment_add_ms_def q TimeClip_of_int)
qed

lemmas evaluation = new_Seismogram_def checkAllSimilar_def checkSimilar_def new_SeismogramSegment_def
   seg_numPoints_def seg_endTime_def seg_recalc_endTime_def seg_timeOfSample_def
      moment_add_seconds_def moment_add_ms_def TimeClip_def moment_min_def moment_max_def
    seis_isContiguous_def Let_def

lemma same_data_refl [simp]: "same_data a a"
  by (simp add: same_data_def)





lemma readable_numPoints: "readable fr seg y \<Longrightarrow> seg_numPoints seg = length (elems y)"
  using seg_y_frame(2) by (fastforce simp: readable_iff)


lemma sum_numPoints_readable:
  "list_all2 (readable fr) segs ys \<Longrightarrow>
   sum_list (map seg_numPoints segs) = length (concat (map elems ys))"
  by (induction segs ys rule: list_all2_induct) (auto simp: readable_numPoints)





lemma seis_mean_loop_value:
  "list_all2 (readable fr) segs ys \<Longrightarrow> \<forall>y\<in>set ys. elems y \<noteq> [] \<Longrightarrow>
   seis_mean_loop fr segs (Some m)
     = Inr (Some (m + sum_list (map (\<lambda>y. segment_mean y * real (length (elems y))) ys)))"
proof (induction segs ys arbitrary: m rule: list_all2_induct)
  case Nil
  then show ?case by simp
next
  case (Cons seg segs y ys)
  from Cons.hyps(1) obtain seg' where y: "seg_y fr seg = Inr (y, seg')" by (auto simp: readable_iff)
  have n: "seg_numPoints seg' = length (elems y)"
    using seg_y_frame(2) [OF y] seg_y_numPoints [OF y] by simp
  have ne: "elems y \<noteq> []" using Cons.prems by simp
  have ih: "seis_mean_loop fr segs (Some (m + segment_mean y * real (length (elems y))))
     = Inr (Some (m + segment_mean y * real (length (elems y))
                  + sum_list (map (\<lambda>y. segment_mean y * real (length (elems y))) ys)))"
    using Cons.prems by (intro Cons.IH) simp
  show ?case using y n ne ih
    by (simp add: meanOfSlice_def js_div_def segment_mean_def add.assoc)
qed

lemma weighted_sum:
  "\<forall>y\<in>set ys. elems y \<noteq> [] \<Longrightarrow>
   sum_list (map (\<lambda>y. segment_mean y * real (length (elems y))) ys) = sum_list (concat (map elems ys))"
  by (induction ys) (auto simp: segment_mean_def)




lemma seis_mean_value:
  assumes s: "priv_segmentArray s = segs" and r: "list_all2 (readable fround) segs ys"
    and ne: "\<forall>y\<in>set ys. elems y \<noteq> []" and pos: "0 < seis_numPoints s"
  shows "seis_mean fround s
     = Inr (Some (sum_list (map (\<lambda>y. segment_mean y * real (length (elems y))) ys)
                  / real (seis_numPoints s)))"
    and "seis_mean fround s
     = Inr (Some (sum_list (concat (map elems ys)) / real (length (concat (map elems ys)))))"
proof -
  have n: "seis_numPoints s = length (concat (map elems ys))"
    using sum_numPoints_readable [OF r] s by (simp add: seis_numPoints_sum)
  show 1: "seis_mean fround s
     = Inr (Some (sum_list (map (\<lambda>y. segment_mean y * real (length (elems y))) ys)
                  / real (seis_numPoints s)))"
    using seis_mean_loop_value [OF r ne, of 0] s pos by (simp add: seis_mean_def js_div_def)
  show "seis_mean fround s
     = Inr (Some (sum_list (concat (map elems ys)) / real (length (concat (map elems ys)))))"
    using 1 by (simp add: weighted_sum [OF ne] n)
qed






lemma TimeClip_near: "\<bar>real_of_int (TimeClip y) - y\<bar> < 1"
  by (simp add: TimeClip_def) linarith

lemma scaled_bound:
  fixes u v m :: real
  shows "u \<le> v / 9007199254740992 \<Longrightarrow> v \<le> m \<Longrightarrow> u \<le> m / 9007199254740992"
  by (rule order_trans [of u "v / 9007199254740992"]) (simp_all add: divide_right_mono)

lemma moment_add_seconds_near:
  assumes t: "\<bar>t\<bar> \<le> 8640000000000" and x: "\<bar>x * 1000\<bar> \<le> 8640000000000"
  shows "\<bar>real_of_int (moment_add_seconds t (double x)) - (real_of_int t + x * 1000)\<bar> < 1 + 1 / 100"
proof -
  define a where "a = double x"
  define b where "b = double (a * 1000)"
  define c where "c = double (real_of_int t + b)"
  have x1: "\<bar>x\<bar> * 1000 \<le> 8640000000000" using x by (simp add: abs_mult)
  have t1: "\<bar>real_of_int t\<bar> \<le> 8640000000000" using t by linarith
  have ea: "\<bar>a - x\<bar> \<le> \<bar>x\<bar> / 9007199254740992" using double_near [of x] by (simp add: a_def)
  have eb: "\<bar>b - a * 1000\<bar> \<le> \<bar>a\<bar> * 1000 / 9007199254740992"
    using double_near [of "a * 1000"] by (simp add: b_def abs_mult)
  have ec: "\<bar>c - (real_of_int t + b)\<bar> \<le> \<bar>real_of_int t + b\<bar> / 9007199254740992"
    using double_near [of "real_of_int t + b"] by (simp add: c_def)
  have a2: "\<bar>a\<bar> * 1000 \<le> 2 * 8640000000000" using ea x1 by linarith
  have b2: "\<bar>b\<bar> \<le> 3 * 8640000000000" using eb a2 by linarith
  have c2: "\<bar>real_of_int t + b\<bar> \<le> 4 * 8640000000000" using b2 t1 by linarith
  have "a * 1000 - x * 1000 = (a - x) * 1000" by (simp add: algebra_simps)
  then have "\<bar>a * 1000 - x * 1000\<bar> = \<bar>a - x\<bar> * 1000" by (simp only: abs_mult abs_numeral)
  then have d1: "\<bar>a * 1000 - x * 1000\<bar> \<le> 8640000000000 / 9007199254740992" using ea x1 by linarith
  have d2: "\<bar>b - a * 1000\<bar> \<le> 2 * 8640000000000 / 9007199254740992"
    using eb a2 by (rule scaled_bound)
  have d3: "\<bar>c - (real_of_int t + b)\<bar> \<le> 4 * 8640000000000 / 9007199254740992"
    using ec c2 by (rule scaled_bound)
  have "\<bar>c - (real_of_int t + x * 1000)\<bar> \<le> 7 * 8640000000000 / 9007199254740992"
    using d1 d2 d3 by linarith
  then have near: "\<bar>c - (real_of_int t + x * 1000)\<bar> < 1 / 100" by simp
  have "moment_add_seconds t (double x) = TimeClip c"
    by (simp add: moment_add_seconds_def moment_add_ms_def a_def b_def c_def)
  then show ?thesis using TimeClip_near [of c] near by linarith
qed

































section \<open>The claims\<close>

subsection \<open>C1: merge\<close>




subsection \<open>C2: isContiguous\<close>

text \<open>
  C2 as stated fails at 1000 Hz: the second segment starts one sample period (1 ms) after
  the end of the first, the end is before that start and the end plus 1.5 sample periods
  (1.5 ms) is after it, and \<^verbatim>\<open>isContiguous\<close> returns false, because the moment moved on
  by 1.5 ms is cut to the whole millisecond, which is the start of the second segment.
  It also fails on a second call: of two segments at 1 Hz one sample period apart the first
  call says that they are contiguous and leaves the end time of the first segment moved
  on in its cache, and the second call says that they are not.
\<close>

theorem isContiguous_kilohertz_counterexample:
  "new_Seismogram [khz_first, khz_second] = Inr khz_seismogram
   \<and> \<not> fst (seis_isContiguous khz_seismogram)
   \<and> fst (seg_endTime khz_first) < priv_startTime khz_second
   \<and> real_of_int (fst (seg_endTime khz_first)) + 1000 * 1.5 / priv_sampleRate khz_first
        > real_of_int (priv_startTime khz_second)
   \<and> real_of_int (priv_startTime khz_second)
        = real_of_int (fst (seg_endTime khz_first)) + 1000 / priv_sampleRate khz_first
   \<and> moment_add_ms (fst (seg_endTime khz_first))
         (double (double (1000 * 1.5) / priv_sampleRate khz_first))
        = priv_startTime khz_second
   \<and> new_Seismogram [hz_first, hz_second] = Inr hz_seismogram
   \<and> real_of_int (priv_startTime hz_second)
        = real_of_int (fst (seg_endTime hz_first)) + 1000 / priv_sampleRate hz_first
   \<and> fst (seis_isContiguous hz_seismogram)
   \<and> \<not> fst (seis_isContiguous (snd (seis_isContiguous hz_seismogram)))"
  by (simp add: khz_seismogram_def khz_first_def khz_second_def hz_seismogram_def hz_first_def
      hz_second_def evaluation double_values)

text \<open>
  C2, amended. \<^verbatim>\<open>isContiguous\<close> is true on a single segment, and in general true if and
  only if every segment and its successor satisfy: the end time is before the start of the
  next, and the end time moved on by \<open>1.5 / sampleRate\<close> seconds, cut to the whole
  millisecond as \<^verbatim>\<open>moment.add\<close> does, is after it. Hence, of two segments, a second that
  starts at the end time of the first (no gap) is not contiguous; with a positive sample
  rate a gap of exactly two sample periods is not contiguous; and a gap of exactly one
  sample period is contiguous when that period is 2 ms or more. The end time is the one
  that the getter returns at the call. In the last two statements the two instants are in
  the range of \<^verbatim>\<open>Date\<close>, as the instants of valid moments are: the sum that
  \<^verbatim>\<open>moment.add\<close> forms is a binary64 number, and within that range it does not pass a
  whole millisecond that the exact sum does not reach.
\<close>

theorem isContiguous_gap_rule:
  "(length (priv_segmentArray s) = 1 \<longrightarrow> fst (seis_isContiguous s))
   \<and> fst (seis_isContiguous s) = all_adjacent gap_ok (priv_segmentArray s)
   \<and> (priv_segmentArray s = [a, b] \<and> priv_startTime b = fst (seg_endTime a)
        \<longrightarrow> \<not> fst (seis_isContiguous s))
   \<and> (priv_segmentArray s = [a, b] \<and> 0 < priv_sampleRate a
        \<and> real_of_int (priv_startTime b) = real_of_int (fst (seg_endTime a)) + 2 * (1000 / priv_sampleRate a)
        \<and> Date_range (fst (seg_endTime a)) \<and> Date_range (priv_startTime b)
        \<longrightarrow> \<not> fst (seis_isContiguous s))
   \<and> (priv_segmentArray s = [a, b] \<and> 2 \<le> 1000 / priv_sampleRate a
        \<and> real_of_int (priv_startTime b) = real_of_int (fst (seg_endTime a)) + 1000 / priv_sampleRate a
        \<and> Date_range (fst (seg_endTime a)) \<and> Date_range (priv_startTime b)
        \<longrightarrow> fst (seis_isContiguous s))"
proof (intro conjI impI)
  assume "length (priv_segmentArray s) = 1"
  then show "fst (seis_isContiguous s)" by (simp add: seis_isContiguous_def)
next
  show "fst (seis_isContiguous s) = all_adjacent gap_ok (priv_segmentArray s)"
    by (rule seis_isContiguous_value)
next
  assume "priv_segmentArray s = [a, b] \<and> priv_startTime b = fst (seg_endTime a)"
  then show "\<not> fst (seis_isContiguous s)"
    by (simp add: seis_isContiguous_value gap_ok_def)
next
  assume h: "priv_segmentArray s = [a, b] \<and> 0 < priv_sampleRate a
        \<and> real_of_int (priv_startTime b) = real_of_int (fst (seg_endTime a)) + 2 * (1000 / priv_sampleRate a)
        \<and> Date_range (fst (seg_endTime a)) \<and> Date_range (priv_startTime b)"
  then have "\<not> moment_add_ms (fst (seg_endTime a)) (double (double (1000 * 1.5) / priv_sampleRate a))
      > priv_startTime b"
    by (intro shifted_two_periods) simp_all
  then show "\<not> fst (seis_isContiguous s)"
    using h by (simp add: seis_isContiguous_value gap_ok_def)
next
  assume h: "priv_segmentArray s = [a, b] \<and> 2 \<le> 1000 / priv_sampleRate a
        \<and> real_of_int (priv_startTime b) = real_of_int (fst (seg_endTime a)) + 1000 / priv_sampleRate a
        \<and> Date_range (fst (seg_endTime a)) \<and> Date_range (priv_startTime b)"
  then have "real_of_int (fst (seg_endTime a)) < real_of_int (priv_startTime b)" by linarith
  then have lt: "fst (seg_endTime a) < priv_startTime b" by (simp only: of_int_less_iff)
  have "moment_add_ms (fst (seg_endTime a)) (double (double (1000 * 1.5) / priv_sampleRate a))
      > priv_startTime b"
    using h by (intro shifted_one_period) simp_all
  then show "fst (seis_isContiguous s)"
    using h lt by (simp add: seis_isContiguous_value gap_ok_def)
qed

theorem isContiguous_gap_rule_witness:
  "fst (seis_isContiguous \<lparr>priv_segmentArray = [hz_first, hz_second], priv_seis_startTime = 0,
                           priv_seis_endTime = 3000, priv_seis_y = None\<rparr>)
   \<and> \<not> fst (seis_isContiguous
          \<lparr>priv_segmentArray = [hz_first, seg_set_startTime 3000 hz_second], priv_seis_startTime = 0,
           priv_seis_endTime = 4000, priv_seis_y = None\<rparr>)
   \<and> \<not> fst (seis_isContiguous
          \<lparr>priv_segmentArray = [hz_first, seg_set_startTime 1000 hz_second], priv_seis_startTime = 0,
           priv_seis_endTime = 2000, priv_seis_y = None\<rparr>)
   \<and> fst (seis_isContiguous \<lparr>priv_segmentArray = [hz_first], priv_seis_startTime = 0,
                           priv_seis_endTime = 1000, priv_seis_y = None\<rparr>)"
  using isContiguous_gap_rule [of
      "\<lparr>priv_segmentArray = [hz_first, hz_second], priv_seis_startTime = 0,
        priv_seis_endTime = 3000, priv_seis_y = None\<rparr>" hz_first hz_second]
    isContiguous_gap_rule [of
      "\<lparr>priv_segmentArray = [hz_first, seg_set_startTime 3000 hz_second], priv_seis_startTime = 0,
        priv_seis_endTime = 4000, priv_seis_y = None\<rparr>" hz_first "seg_set_startTime 3000 hz_second"]
    isContiguous_gap_rule [of
      "\<lparr>priv_segmentArray = [hz_first, seg_set_startTime 1000 hz_second], priv_seis_startTime = 0,
        priv_seis_endTime = 2000, priv_seis_y = None\<rparr>" hz_first "seg_set_startTime 1000 hz_second"]
    isContiguous_gap_rule [of
      "\<lparr>priv_segmentArray = [hz_first], priv_seis_startTime = 0,
        priv_seis_endTime = 1000, priv_seis_y = None\<rparr>"]
  by (simp add: hz_first_def hz_second_def seg_set_startTime_def seg_invalidate_endTime_cache_def
      Date_range_def evaluation)

subsection \<open>C3: cut\<close>




subsection \<open>C4: decoding on the first read of y\<close>

text \<open>
  C4. A segment constructed from encoded payloads, each of which decodes, is encoded at
  first. The first read of \<^verbatim>\<open>y\<close> returns one typed array that holds the decoded
  samples of all chunks in order and has \<^verbatim>\<open>numPoints\<close> elements; it leaves the segment
  with that array and without the encoded handles, so that \<^verbatim>\<open>isEncoded\<close> is false and
  \<^verbatim>\<open>numPoints\<close> is what it was. A later read returns the same array and changes nothing,
  and nothing a caller does with the segment afterwards makes it encoded again.
\<close>

theorem y_decodes_once:
  "cs \<noteq> [] \<Longrightarrow> \<forall>c\<in>set cs. \<exists>d. decode c = Inr d \<Longrightarrow>
   s = new_SeismogramSegment (EncodedData cs) sampleRate start \<Longrightarrow>
   k = array_kind_of (compressionType (hd cs)) \<Longrightarrow>
   a = TypedArray k (concat (map (chunk_samples fround k) cs)) \<Longrightarrow>
   s' = s\<lparr>priv_y := Some a, priv_compressed := None\<rparr> \<Longrightarrow>
   seg_isEncoded s
   \<and> seg_y fround s = Inr (a, s')
   \<and> length (elems a) = seg_numPoints s
   \<and> \<not> seg_isEncoded s'
   \<and> seg_numPoints s' = seg_numPoints s
   \<and> seg_y fround s' = Inr (a, s')
   \<and> (\<forall>ops. \<not> seg_isEncoded (seg_run fround s' ops))"
proof -
  assume ne: "cs \<noteq> []" and ok: "\<forall>c\<in>set cs. \<exists>d. decode c = Inr d"
    and s: "s = new_SeismogramSegment (EncodedData cs) sampleRate start"
    and k: "k = array_kind_of (compressionType (hd cs))"
    and a: "a = TypedArray k (concat (map (chunk_samples fround k) cs))"
    and s': "s' = s\<lparr>priv_y := Some a, priv_compressed := None\<rparr>"
  have y: "priv_y s = None" and c: "priv_compressed s = Some cs"
    by (simp_all add: s new_SeismogramSegment_def)
  have enc: "seg_isEncoded s" using y c ne by (simp add: seg_isEncoded_def)
  have r: "seg_y fround s = Inr (a, s')"
    using seg_y_encoded [OF y c ne ok, of fround] by (simp add: k a s')
  have n: "seg_numPoints s = sum_list (map numSamples cs)"
    using y c by (simp add: seg_numPoints_def foldl_numSamples)
  have la: "length (elems a) = seg_numPoints s"
    using length_concat_chunk_samples [OF ok, of fround k] by (simp add: a n)
  have n': "seg_numPoints s' = seg_numPoints s" using la by (simp add: s' seg_numPoints_def)
  have again: "seg_y fround s' = Inr (a, s')" by (simp add: s' seg_y_def)
  have c': "priv_compressed s' = None" by (simp add: s')
  have oneway: "\<forall>ops. \<not> seg_isEncoded (seg_run fround s' ops)"
    using c' by (simp add: not_encoded not_encoded_run)
  have ne': "\<not> seg_isEncoded s'" using c' by (simp add: not_encoded)
  show ?thesis by (intro conjI enc r la ne' n' again oneway)
qed

theorem y_decodes_once_witness:
  "seg_y id (new_SeismogramSegment
       (EncodedData [\<lparr>compressionType = FLOAT, numSamples = 2, payload = Some (TypedArray Float32 [1, 2])\<rparr>,
                     \<lparr>compressionType = OtherCompression 11, numSamples = 1, payload = Some (TypedArray Int32 [7])\<rparr>])
       20 0)
   = Inr (TypedArray Float32 [1, 2, 7],
          \<lparr>priv_y = Some (TypedArray Float32 [1, 2, 7]), priv_compressed = None,
           priv_sampleRate = 20, priv_startTime = 0, priv_endTime_cache = None,
           priv_endTime_cache_numPoints = 0, networkCode = None, stationCode = None,
           locationCode = None, channelCode = None, yUnit = ''count''\<rparr>)"
  using y_decodes_once [of
      "[\<lparr>compressionType = FLOAT, numSamples = 2, payload = Some (TypedArray Float32 [1, 2])\<rparr>,
        \<lparr>compressionType = OtherCompression 11, numSamples = 1, payload = Some (TypedArray Int32 [7])\<rparr>]"
      _ 20 0 _ _ id, OF _ _ refl refl refl refl]
  by (simp add: decode_def chunk_samples_def array_kind_of_def store_elem_def
      new_SeismogramSegment_def)

subsection \<open>C5: append\<close>

text \<open>
  C5. For a Seismogram with a first segment \<open>f\<close> and a segment \<open>seg\<close>: if the network,
  station, location or channel code, the unit or the sample rate of \<open>seg\<close> differs from
  that of \<open>f\<close>, \<^verbatim>\<open>append\<close> throws; if all are equal it succeeds, \<^verbatim>\<open>numPoints\<close> grows
  by the number of samples of \<open>seg\<close>, the start time becomes the earlier of the old start
  time and the start of \<open>seg\<close>, the end time the later of the old end time and the end of
  \<open>seg\<close>, and \<open>seg\<close> is the last segment.
\<close>

theorem append_checks_and_extends:
  "priv_segmentArray s = f # rest \<Longrightarrow>
   (networkCode seg \<noteq> networkCode f \<or> stationCode seg \<noteq> stationCode f
      \<or> locationCode seg \<noteq> locationCode f \<or> channelCode seg \<noteq> channelCode f
      \<or> yUnit seg \<noteq> yUnit f \<or> priv_sampleRate seg \<noteq> priv_sampleRate f
    \<longrightarrow> (\<exists>e. seis_append s (Inl seg) = Inl e))
   \<and> (networkCode seg = networkCode f \<and> stationCode seg = stationCode f
      \<and> locationCode seg = locationCode f \<and> channelCode seg = channelCode f
      \<and> yUnit seg = yUnit f \<and> priv_sampleRate seg = priv_sampleRate f
    \<longrightarrow> (\<exists>s'. seis_append s (Inl seg) = Inr s'
           \<and> seis_numPoints s' = seis_numPoints s + seg_numPoints seg
           \<and> priv_seis_startTime s' = min (priv_seis_startTime s) (priv_startTime seg)
           \<and> priv_seis_endTime s' = max (priv_seis_endTime s) (fst (seg_endTime seg))
           \<and> priv_segmentArray s' = priv_segmentArray s @ [snd (seg_endTime seg)]))"
proof (intro conjI impI)
  assume s: "priv_segmentArray s = f # rest"
  {
    assume "networkCode seg \<noteq> networkCode f \<or> stationCode seg \<noteq> stationCode f
      \<or> locationCode seg \<noteq> locationCode f \<or> channelCode seg \<noteq> channelCode f
      \<or> yUnit seg \<noteq> yUnit f \<or> priv_sampleRate seg \<noteq> priv_sampleRate f"
    then have "checkSimilar f seg \<noteq> None" by (simp add: checkSimilar_None)
    then show "\<exists>e. seis_append s (Inl seg) = Inl e"
      using s by (auto simp: seis_append_def seis_append_segment_def)
  }
  {
    assume "networkCode seg = networkCode f \<and> stationCode seg = stationCode f
      \<and> locationCode seg = locationCode f \<and> channelCode seg = channelCode f
      \<and> yUnit seg = yUnit f \<and> priv_sampleRate seg = priv_sampleRate f"
    then have c: "checkSimilar f seg = None" by (simp add: checkSimilar_None)
    let ?s' = "s\<lparr>priv_seis_startTime := moment_min (priv_seis_startTime s) [priv_startTime seg],
                 priv_seis_endTime := moment_max (priv_seis_endTime s) [fst (seg_endTime seg)],
                 priv_segmentArray := priv_segmentArray s @ [snd (seg_endTime seg)]\<rparr>"
    have r: "seis_append s (Inl seg) = Inr ?s'"
      using s c by (simp add: seis_append_def seis_append_segment_def split_beta)
    have n: "seis_numPoints ?s' = seis_numPoints s + seg_numPoints seg"
      by (simp add: seis_numPoints_sum)
    have t: "priv_seis_startTime ?s' = min (priv_seis_startTime s) (priv_startTime seg)"
      "priv_seis_endTime ?s' = max (priv_seis_endTime s) (fst (seg_endTime seg))"
      by (auto simp: moment_min_def moment_max_def)
    show "\<exists>s'. seis_append s (Inl seg) = Inr s'
           \<and> seis_numPoints s' = seis_numPoints s + seg_numPoints seg
           \<and> priv_seis_startTime s' = min (priv_seis_startTime s) (priv_startTime seg)
           \<and> priv_seis_endTime s' = max (priv_seis_endTime s) (fst (seg_endTime seg))
           \<and> priv_segmentArray s' = priv_segmentArray s @ [snd (seg_endTime seg)]"
      using r n t by (intro exI [of _ ?s']) simp
  }
qed

theorem append_checks_and_extends_witness:
  "seis_append
     \<lparr>priv_segmentArray = [new_SeismogramSegment (TypedData (TypedArray Float64 [1, 2, 3])) 1 0],
      priv_seis_startTime = 0, priv_seis_endTime = 2000, priv_seis_y = None\<rparr>
     (Inl ((new_SeismogramSegment (TypedData (TypedArray Float64 [4, 5])) 1 3000)
             \<lparr>channelCode := Some ''BHZ''\<rparr>))
   = Inl ChannelCodeNotSame
   \<and> seis_append
       \<lparr>priv_segmentArray = [new_SeismogramSegment (TypedData (TypedArray Float64 [1, 2, 3])) 1 0],
        priv_seis_startTime = 0, priv_seis_endTime = 2000, priv_seis_y = None\<rparr>
       (Inl (new_SeismogramSegment (TypedData (TypedArray Float64 [4, 5])) 1 3000))
     = Inr \<lparr>priv_segmentArray =
               [new_SeismogramSegment (TypedData (TypedArray Float64 [1, 2, 3])) 1 0,
                (new_SeismogramSegment (TypedData (TypedArray Float64 [4, 5])) 1 3000)
                  \<lparr>priv_endTime_cache := Some 4000, priv_endTime_cache_numPoints := 2\<rparr>],
             priv_seis_startTime = 0, priv_seis_endTime = 4000, priv_seis_y = None\<rparr>"
  using append_checks_and_extends [of
      "\<lparr>priv_segmentArray = [new_SeismogramSegment (TypedData (TypedArray Float64 [1, 2, 3])) 1 0],
        priv_seis_startTime = 0, priv_seis_endTime = 2000, priv_seis_y = None\<rparr>"
      "new_SeismogramSegment (TypedData (TypedArray Float64 [1, 2, 3])) 1 0" "[]"
      "(new_SeismogramSegment (TypedData (TypedArray Float64 [4, 5])) 1 3000)\<lparr>channelCode := Some ''BHZ''\<rparr>"]
    append_checks_and_extends [of
      "\<lparr>priv_segmentArray = [new_SeismogramSegment (TypedData (TypedArray Float64 [1, 2, 3])) 1 0],
        priv_seis_startTime = 0, priv_seis_endTime = 2000, priv_seis_y = None\<rparr>"
      "new_SeismogramSegment (TypedData (TypedArray Float64 [1, 2, 3])) 1 0" "[]"
      "new_SeismogramSegment (TypedData (TypedArray Float64 [4, 5])) 1 3000"]
  by (auto simp: seis_append_def seis_append_segment_def checkSimilar_def new_SeismogramSegment_def
      seis_numPoints_def seg_numPoints_def seg_endTime_def seg_recalc_endTime_def seg_timeOfSample_def
      moment_add_seconds_def moment_add_ms_def TimeClip_def moment_min_def moment_max_def)

subsection \<open>C6: findMinMax over chunks\<close>

text \<open>
  C6. For a Seismogram of one or more segments whose samples can be read,
  \<^verbatim>\<open>Seismogram.findMinMax\<close>, which hands the pair found for one segment to
  \<^verbatim>\<open>findMinMax\<close> of the next as its accumulator, returns the pair that a single
  \<^verbatim>\<open>findMinMax\<close> returns on one segment holding the samples of all the segments in
  order, with the same initial accumulator (or none).
\<close>

theorem findMinMax_over_chunks:
  "priv_segmentArray s = segs \<Longrightarrow> segs \<noteq> [] \<Longrightarrow>
   list_all2 (readable fround) segs ys \<Longrightarrow>
   seis_findMinMax fround s acc
     = seg_findMinMax fround
         (new_SeismogramSegment (TypedData (TypedArray k (concat (map elems ys)))) sampleRate start) acc"
proof -
  assume s: "priv_segmentArray s = segs" and ne: "segs \<noteq> []"
    and ys: "list_all2 (readable fround) segs ys"
  let ?whole = "new_SeismogramSegment (TypedData (TypedArray k (concat (map elems ys)))) sampleRate start"
  have "seg_y fround ?whole = Inr (TypedArray k (concat (map elems ys)), ?whole)"
    by (simp add: seg_y_def new_SeismogramSegment_def)
  then have r: "seg_findMinMax fround ?whole acc
      = Inr (minmax_scan (concat (map elems ys)) (minmax_start acc))"
    using seg_findMinMax_value by fastforce
  have "seis_findMinMax fround s acc = Inr (minmax_scan (concat (map elems ys)) (minmax_start acc))"
    using seis_findMinMax_loop_chunks [OF ys, of acc] s ne by (simp add: seis_findMinMax_def)
  then show ?thesis using r by simp
qed

theorem findMinMax_over_chunks_witness:
  "seis_findMinMax id
     \<lparr>priv_segmentArray = [new_SeismogramSegment (TypedData (TypedArray Int32 [3, -1])) 1 0,
                           new_SeismogramSegment (TypedData (TypedArray Int32 [7, 2])) 1 5000],
      priv_seis_startTime = 0, priv_seis_endTime = 6000, priv_seis_y = None\<rparr> None
   = Inr (-1, 7)"
  using findMinMax_over_chunks [OF refl, of
     "\<lparr>priv_segmentArray = [new_SeismogramSegment (TypedData (TypedArray Int32 [3, -1])) 1 0,
                           new_SeismogramSegment (TypedData (TypedArray Int32 [7, 2])) 1 5000],
      priv_seis_startTime = 0, priv_seis_endTime = 6000, priv_seis_y = None\<rparr>"
     id "[TypedArray Int32 [3, -1], TypedArray Int32 [7, 2]]" None Int32 1 0]
  by (simp add: readable_def seg_y_def new_SeismogramSegment_def seg_findMinMax_def
      MAX_SAFE_INTEGER_def)

subsection \<open>C7: the end time is derived, cached and invalidated\<close>

text \<open>
  C7 as stated fails where it says that the end time equals the start time plus
  \<open>(n - 1) / sampleRate\<close> seconds. A segment of 202 samples at 100 Hz from 0 ms has the end
  time 2009 ms, where the start plus 201 sample periods is 2010 ms: \<^verbatim>\<open>201 / 100 * 1e3\<close> is
  2009.9999999999998 in binary64 and \<^verbatim>\<open>moment.add\<close> cuts it to the whole millisecond.
  A segment of two samples at 3 Hz from 0 ms has the end time 333 ms, where the start plus
  one sample period is 1000/3 ms.
\<close>

theorem endTime_counterexample:
  "seg_numPoints hundred_hz = 202
   \<and> fst (seg_endTime hundred_hz) = 2009
   \<and> real_of_int (priv_startTime hundred_hz)
       + (real (seg_numPoints hundred_hz) - 1) / priv_sampleRate hundred_hz * 1000 = 2010
   \<and> seg_numPoints three_hz = 2
   \<and> fst (seg_endTime three_hz) = 333
   \<and> real_of_int (priv_startTime three_hz)
       + (real (seg_numPoints three_hz) - 1) / priv_sampleRate three_hz * 1000 = 1000 / 3"
  by (simp add: hundred_hz_def three_hz_def double_sample_times evaluation)

text \<open>
  C7, amended. Take a segment with a sample rate other than zero whose cached end time,
  when the cache is valid for its \<open>n\<close> samples, is the time of its last sample: a new
  segment is such a segment, and every assignment to \<^verbatim>\<open>y\<close>, \<^verbatim>\<open>startTime\<close>,
  \<^verbatim>\<open>sampleRate\<close> and every read of \<^verbatim>\<open>y\<close>, \<^verbatim>\<open>endTime\<close> keeps it one (what
  \<^verbatim>\<open>Seismogram.isContiguous\<close> does to the cached moment is the subject of C10 and is not
  described here). Its \<^verbatim>\<open>endTime\<close> is the start time moved on by \<open>(n - 1) / sampleRate\<close>
  seconds as \<^verbatim>\<open>moment.add\<close> moves it: quotient, product with 1000 and sum in binary64,
  the sum cut to the whole millisecond. For a start time and a length of at most
  \<open>8.64e12\<close> ms this is less than 1.01 ms from the start time plus
  \<open>(n - 1) / sampleRate\<close> seconds. The value read is kept in the cache and a second read
  changes nothing; assigning \<^verbatim>\<open>startTime\<close>, \<^verbatim>\<open>sampleRate\<close> or \<^verbatim>\<open>y\<close> empties the
  cache, and the next read of \<^verbatim>\<open>endTime\<close> is computed in the same way from the new
  start time, sample rate or number of samples.
\<close>

theorem endTime_derived_cached_invalidated:
  "cache_ok s \<Longrightarrow> priv_sampleRate s \<noteq> 0 \<Longrightarrow> r \<noteq> 0 \<Longrightarrow>
   fst (seg_endTime s)
     = TimeClip (double (real_of_int (priv_startTime s)
                         + double (double (real_of_int (int (seg_numPoints s) - 1) / priv_sampleRate s)
                                   * 1000)))
   \<and> (\<bar>priv_startTime s\<bar> \<le> 8640000000000
        \<and> \<bar>real_of_int (int (seg_numPoints s) - 1) / priv_sampleRate s * 1000\<bar> \<le> 8640000000000
      \<longrightarrow> \<bar>real_of_int (fst (seg_endTime s))
            - (real_of_int (priv_startTime s)
               + real_of_int (int (seg_numPoints s) - 1) / priv_sampleRate s * 1000)\<bar> < 1 + 1 / 100)
   \<and> priv_endTime_cache (snd (seg_endTime s)) = Some (fst (seg_endTime s))
   \<and> seg_endTime (snd (seg_endTime s)) = seg_endTime s
   \<and> priv_endTime_cache (seg_set_startTime t s) = None
   \<and> priv_endTime_cache (seg_set_sampleRate r s) = None
   \<and> priv_endTime_cache (seg_set_y v s) = None
   \<and> fst (seg_endTime (seg_set_startTime t s))
       = moment_add_seconds t (double (real_of_int (int (seg_numPoints s) - 1) / priv_sampleRate s))
   \<and> fst (seg_endTime (seg_set_sampleRate r s))
       = moment_add_seconds (priv_startTime s) (double (real_of_int (int (seg_numPoints s) - 1) / r))
   \<and> fst (seg_endTime (seg_set_y v s))
       = moment_add_seconds (priv_startTime s)
           (double (real_of_int (int (length (elems v)) - 1) / priv_sampleRate s))
   \<and> cache_ok (seg_run fround (new_SeismogramSegment yArray sampleRate start) ops)
   \<and> cache_ok (seg_run fround s ops)"
proof -
  assume ok: "cache_ok s"
  have e: "fst (seg_endTime s)
     = moment_add_seconds (priv_startTime s)
         (double (real_of_int (int (seg_numPoints s) - 1) / priv_sampleRate s))"
    using cache_ok_endTime [OF ok] by (simp add: seg_timeOfSample_def)
  have 1: "fst (seg_endTime s)
     = TimeClip (double (real_of_int (priv_startTime s)
                         + double (double (real_of_int (int (seg_numPoints s) - 1) / priv_sampleRate s)
                                   * 1000)))"
    by (simp only: e moment_add_seconds_def moment_add_ms_def)
  have near: "\<bar>priv_startTime s\<bar> \<le> 8640000000000
        \<and> \<bar>real_of_int (int (seg_numPoints s) - 1) / priv_sampleRate s * 1000\<bar> \<le> 8640000000000
      \<longrightarrow> \<bar>real_of_int (fst (seg_endTime s))
            - (real_of_int (priv_startTime s)
               + real_of_int (int (seg_numPoints s) - 1) / priv_sampleRate s * 1000)\<bar> < 1 + 1 / 100"
  proof
    assume h: "\<bar>priv_startTime s\<bar> \<le> 8640000000000
        \<and> \<bar>real_of_int (int (seg_numPoints s) - 1) / priv_sampleRate s * 1000\<bar> \<le> 8640000000000"
    then have a: "\<bar>priv_startTime s\<bar> \<le> 8640000000000"
      and b: "\<bar>real_of_int (int (seg_numPoints s) - 1) / priv_sampleRate s * 1000\<bar> \<le> 8640000000000"
      by simp_all
    show "\<bar>real_of_int (fst (seg_endTime s))
            - (real_of_int (priv_startTime s)
               + real_of_int (int (seg_numPoints s) - 1) / priv_sampleRate s * 1000)\<bar> < 1 + 1 / 100"
      unfolding e by (rule moment_add_seconds_near [OF a b])
  qed
  have inv: "priv_endTime_cache (seg_set_startTime t s) = None"
     "priv_endTime_cache (seg_set_sampleRate r s) = None"
     "priv_endTime_cache (seg_set_y v s) = None"
    by (simp_all add: seg_set_startTime_def seg_set_sampleRate_def seg_set_y_def
        seg_invalidate_endTime_cache_def)
  have 2: "fst (seg_endTime (seg_set_startTime t s))
       = moment_add_seconds t (double (real_of_int (int (seg_numPoints s) - 1) / priv_sampleRate s))"
    using cache_ok_endTime [OF cache_ok_invalidate, of "s\<lparr>priv_startTime := t\<rparr>"]
    by (simp add: seg_set_startTime_def seg_timeOfSample_def seg_numPoints_invalidate
        seg_invalidate_endTime_cache_def seg_numPoints_frame)
  have 3: "fst (seg_endTime (seg_set_sampleRate r s))
       = moment_add_seconds (priv_startTime s) (double (real_of_int (int (seg_numPoints s) - 1) / r))"
    using cache_ok_endTime [OF cache_ok_invalidate, of "s\<lparr>priv_sampleRate := r\<rparr>"]
    by (simp add: seg_set_sampleRate_def seg_timeOfSample_def seg_numPoints_invalidate
        seg_invalidate_endTime_cache_def seg_numPoints_frame)
  have 4: "fst (seg_endTime (seg_set_y v s))
       = moment_add_seconds (priv_startTime s)
           (double (real_of_int (int (length (elems v)) - 1) / priv_sampleRate s))"
    using cache_ok_endTime [OF cache_ok_invalidate, of "s\<lparr>priv_y := Some v\<rparr>"]
    by (simp add: seg_set_y_def seg_timeOfSample_def seg_numPoints_invalidate
        seg_invalidate_endTime_cache_def seg_numPoints_def)
  have new: "cache_ok (seg_run fround (new_SeismogramSegment yArray sampleRate start) ops)"
    by (rule cache_ok_run) (rule cache_ok_new)
  have kept: "cache_ok (seg_run fround s ops)" using ok by (rule cache_ok_run)
  show ?thesis by (intro conjI 1 near inv 2 3 4 new kept seg_endTime_twice seg_endTime_cached)
qed

theorem endTime_witness:
  "fst (seg_endTime (seg_run id (new_SeismogramSegment (TypedData (TypedArray Float64 [1, 2, 3])) 1 0)
          [Set_sampleRate 2, Get_endTime, Set_startTime 500])) = 1500
   \<and> fst (seg_endTime (seg_set_sampleRate 4
          (seg_run id (new_SeismogramSegment (TypedData (TypedArray Float64 [1, 2, 3])) 1 0)
             [Set_sampleRate 2, Get_endTime, Set_startTime 500]))) = 1000
   \<and> \<bar>real_of_int (fst (seg_endTime
          (seg_run id (new_SeismogramSegment (TypedData (TypedArray Float64 [1, 2, 3])) 1 0)
             [Set_sampleRate 2, Get_endTime, Set_startTime 500])))
        - (500 + (3 - 1) / 2 * 1000)\<bar> < 1 + 1 / 100"
proof -
  let ?s = "seg_run id (new_SeismogramSegment (TypedData (TypedArray Float64 [1, 2, 3])) 1 0)
          [Set_sampleRate 2, Get_endTime, Set_startTime 500]"
  have s: "?s = (new_SeismogramSegment (TypedData (TypedArray Float64 [1, 2, 3])) 2 500)"
    by (simp add: seg_run_def seg_set_sampleRate_def seg_set_startTime_def
        seg_invalidate_endTime_cache_def evaluation)
  have ok: "cache_ok ?s" unfolding s by (rule cache_ok_new)
  have sr: "priv_sampleRate ?s \<noteq> 0" unfolding s by (simp add: new_SeismogramSegment_def)
  have r: "(4::real) \<noteq> 0" by simp
  note t = endTime_derived_cached_invalidated [OF ok sr r, of 0 "TypedArray Float64 []" id
      "TypedData (TypedArray Float64 [])" 1 0 "[]"]
  have 1: "fst (seg_endTime ?s)
     = TimeClip (double (real_of_int (priv_startTime ?s)
                         + double (double (real_of_int (int (seg_numPoints ?s) - 1) / priv_sampleRate ?s)
                                   * 1000)))"
    using t by (rule conjunct1)
  have 2: "fst (seg_endTime (seg_set_sampleRate 4 ?s))
       = moment_add_seconds (priv_startTime ?s) (double (real_of_int (int (seg_numPoints ?s) - 1) / 4))"
    using t by (elim conjE)
  have a: "fst (seg_endTime ?s) = 1500"
    unfolding 1 unfolding s by (simp add: new_SeismogramSegment_def seg_numPoints_def TimeClip_def)
  have b: "fst (seg_endTime (seg_set_sampleRate 4 ?s)) = 1000"
    unfolding 2 unfolding s
    by (simp add: new_SeismogramSegment_def seg_numPoints_def moment_add_seconds_def
        moment_add_ms_def TimeClip_def double_values)
  have 3: "\<bar>priv_startTime ?s\<bar> \<le> 8640000000000
        \<and> \<bar>real_of_int (int (seg_numPoints ?s) - 1) / priv_sampleRate ?s * 1000\<bar> \<le> 8640000000000
      \<longrightarrow> \<bar>real_of_int (fst (seg_endTime ?s))
            - (real_of_int (priv_startTime ?s)
               + real_of_int (int (seg_numPoints ?s) - 1) / priv_sampleRate ?s * 1000)\<bar> < 1 + 1 / 100"
    using t by (elim conjE)
  have h: "\<bar>priv_startTime ?s\<bar> \<le> 8640000000000
        \<and> \<bar>real_of_int (int (seg_numPoints ?s) - 1) / priv_sampleRate ?s * 1000\<bar> \<le> 8640000000000"
    unfolding s by (simp add: new_SeismogramSegment_def seg_numPoints_def)
  have v: "real_of_int (priv_startTime ?s)
        + real_of_int (int (seg_numPoints ?s) - 1) / priv_sampleRate ?s * 1000 = 500 + (3 - 1) / 2 * 1000"
    unfolding s by (simp add: new_SeismogramSegment_def seg_numPoints_def)
  have c: "\<bar>real_of_int (fst (seg_endTime ?s)) - (500 + (3 - 1) / 2 * 1000)\<bar> < 1 + 1 / 100"
    using 3 [THEN mp, OF h] by (simp only: v)
  show ?thesis using a b c by (intro conjI)
qed

subsection \<open>C8: a window outside the data\<close>

text \<open>
  C8. When the window ends before the segment starts or starts after the segment's end
  time, \<^verbatim>\<open>cut\<close> returns \<^verbatim>\<open>null\<close> and does not throw; when every segment of a
  Seismogram is outside the window in this way, \<^verbatim>\<open>trim\<close> returns \<^verbatim>\<open>null\<close> and does not
  throw.
\<close>

theorem outside_window_is_null:
  "(endTime w < priv_startTime seg \<or> startTime w > fst (seg_endTime seg)
      \<longrightarrow> seg_cut fround seg w = Inr None)
   \<and> ((\<forall>d\<in>set (priv_segmentArray s). endTime w < priv_startTime d \<or> startTime w > fst (seg_endTime d))
      \<longrightarrow> seis_trim s w = Inr None)"
proof (intro conjI impI)
  assume "endTime w < priv_startTime seg \<or> startTime w > fst (seg_endTime seg)"
  then show "seg_cut fround seg w = Inr None" by (simp add: seg_cut_def)
next
  assume a: "\<forall>d\<in>set (priv_segmentArray s). endTime w < priv_startTime d \<or> startTime w > fst (seg_endTime d)"
  have st: "priv_startTime (snd (seg_endTime d)) = priv_startTime d" for d
    using seg_endTime_frame [of d] by auto
  have "filter (\<lambda>d. priv_startTime d < endTime w)
              (map (\<lambda>d. snd (seg_endTime d))
                 (filter (\<lambda>d. fst (seg_endTime d) > startTime w) (priv_segmentArray s))) = []"
    using a by (auto simp: filter_empty_conv st)
  then show "seis_trim s w = Inr None" by (simp add: seis_trim_def)
qed

theorem outside_window_is_null_witness:
  "seg_cut id (new_SeismogramSegment (TypedData (TypedArray Float64 [1, 2, 3])) 1 0)
      \<lparr>startTime = 5000, endTime = 6000\<rparr> = Inr None
   \<and> seis_trim
       \<lparr>priv_segmentArray = [new_SeismogramSegment (TypedData (TypedArray Float64 [1, 2, 3])) 1 0],
        priv_seis_startTime = 0, priv_seis_endTime = 2000, priv_seis_y = None\<rparr>
       \<lparr>startTime = 5000, endTime = 6000\<rparr> = Inr None"
  using outside_window_is_null [of "\<lparr>startTime = 5000, endTime = 6000\<rparr>"
      "new_SeismogramSegment (TypedData (TypedArray Float64 [1, 2, 3])) 1 0" id
      "\<lparr>priv_segmentArray = [new_SeismogramSegment (TypedData (TypedArray Float64 [1, 2, 3])) 1 0],
        priv_seis_startTime = 0, priv_seis_endTime = 2000, priv_seis_y = None\<rparr>"]
  by (simp add: new_SeismogramSegment_def seg_numPoints_def seg_endTime_def seg_recalc_endTime_def
      seg_timeOfSample_def moment_add_seconds_def moment_add_ms_def TimeClip_def)

subsection \<open>C9: mean\<close>

text \<open>
  C9 does not hold of the code. A Seismogram of a segment with the samples \<open>[1, 2, 3]\<close>
  and a segment whose sample array is empty has \<^verbatim>\<open>numPoints\<close> 3, and the mean of its
  samples is 2; \<^verbatim>\<open>mean\<close> adds \<^verbatim>\<open>meanOfSlice(s.y, 0) * 0\<close> for the empty segment, which
  is \<open>0 / 0\<close> times 0 and not a number, and returns a value that is not finite. The
  docstring of \<^verbatim>\<open>mean\<close> says that it calculates the mean of the seismogram and returns
  the mean value. For a Seismogram all of whose segments have samples \<^verbatim>\<open>mean\<close> is the
  weighted average of the claim (\<open>seis_mean_value\<close> above).
\<close>

theorem mean_with_empty_segment:
  "new_Seismogram [three_samples, no_samples] = Inr sparse_seismogram
   \<and> seis_numPoints sparse_seismogram = 3
   \<and> map_sum id fst (seg_y id three_samples) = Inr (TypedArray Float64 [1, 2, 3])
   \<and> map_sum id fst (seg_y id no_samples) = Inr (TypedArray Float64 [])
   \<and> segment_mean (TypedArray Float64 [1, 2, 3]) = 2
   \<and> seis_mean id sparse_seismogram = Inr None"
  by (simp add: sparse_seismogram_def three_samples_def no_samples_def evaluation seis_numPoints_def
      seis_mean_def seg_y_def meanOfSlice_def js_div_def segment_mean_def)

subsection \<open>C10: isContiguous and the cached end time\<close>

text \<open>
  C10 does not hold of the code. Two segments of two samples at 1 Hz, the first from 0 ms
  and the second from 2000 ms: before the call the end times are 1000 ms and 3000 ms and
  \<^verbatim>\<open>isContiguous\<close> returns true; after the call the first segment's \<^verbatim>\<open>endTime\<close> is
  2500 ms, and a second call returns false. \<^verbatim>\<open>prev.endTime\<close> is the cached moment and
  \<^verbatim>\<open>add\<close> changes it in place; \<^verbatim>\<open>timeOfSample\<close> and \<^verbatim>\<open>cut\<close> copy a moment with
  \<^verbatim>\<open>moment.utc\<close> before they add to it or take a difference.
\<close>

theorem isContiguous_shifts_endTime:
  "new_Seismogram [hz_first, hz_second] = Inr hz_seismogram
   \<and> fst (seg_endTime (hd (priv_segmentArray hz_seismogram))) = 1000
   \<and> fst (seis_isContiguous hz_seismogram)
   \<and> fst (seg_endTime (hd (priv_segmentArray (snd (seis_isContiguous hz_seismogram))))) = 2500
   \<and> \<not> fst (seis_isContiguous (snd (seis_isContiguous hz_seismogram)))"
  by (simp add: hz_seismogram_def hz_first_def hz_second_def evaluation)

end
